theory Spec2Isabelle
  imports Complex_Main
begin

section \<open>Parsed documents and the Python primitives the resolver uses\<close>

text \<open>
  \<^verbatim>\<open>extract_prompt.py\<close> works on the value that \<^verbatim>\<open>json.loads\<close> returns. Nothing in the
  program checks the type of what it reads, so the model keeps the document dynamically
  typed: a \<open>json\<close> value, and every operation that Python can refuse on it returns the
  exception as a value.

  Scope of the value model: a float is held by its exact (finite) value, so NaN and the
  infinities are outside it; the characters of a string are code points below 256; the
  association list of \<open>JObj\<close> holds the items of a Python dict in iteration order (its keys
  are distinct, and \<open>map_of\<close> is the lookup). Python's \<^verbatim>\<open>None\<close> is \<open>JNull\<close>.
\<close>

datatype json =
    JNull
  | JBool bool
  | JInt int
  | JFloat rat
  | JStr string
  | JArr "json list"
  | JObj "(string \<times> json) list"

datatype error = TypeError | KeyError | IndexError | AttributeError

text \<open>Sequencing of fallible steps: the first exception aborts what follows.\<close>

definition bnd :: "error + 'a \<Rightarrow> ('a \<Rightarrow> error + 'b) \<Rightarrow> error + 'b" where
  "bnd m f = (case m of Inl e \<Rightarrow> Inl e | Inr x \<Rightarrow> f x)"

fun map_err :: "('a \<Rightarrow> error + 'b) \<Rightarrow> 'a list \<Rightarrow> error + 'b list" where
  "map_err f [] = Inr []"
| "map_err f (x # xs) = bnd (f x) (\<lambda>y. bnd (map_err f xs) (\<lambda>ys. Inr (y # ys)))"

text \<open>Truth value of an object, as \<^verbatim>\<open>if x\<close>, \<^verbatim>\<open>x or y\<close> test it.\<close>

fun truthy :: "json \<Rightarrow> bool" where
  "truthy JNull = False"
| "truthy (JBool b) = b"
| "truthy (JInt i) = (i \<noteq> 0)"
| "truthy (JFloat r) = (r \<noteq> 0)"
| "truthy (JStr s) = (s \<noteq> [])"
| "truthy (JArr xs) = (xs \<noteq> [])"
| "truthy (JObj d) = (d \<noteq> [])"

definition py_or :: "json \<Rightarrow> json \<Rightarrow> json" where
  "py_or x y = (if truthy x then x else y)"

text \<open>
  Dictionary and set keys. Python finds a key by hash and \<^verbatim>\<open>==\<close>, under which
  \<^verbatim>\<open>True == 1 == 1.0\<close>; lists and dicts are unhashable. \<open>dict_key\<close> maps a hashable value to
  the class of values equal to it, so that a Python dict keyed by parsed values is a map
  on \<open>hkey\<close>.
\<close>

datatype hkey = KNone | KNum rat | KStr string

fun dict_key :: "json \<Rightarrow> error + hkey" where
  "dict_key JNull = Inr KNone"
| "dict_key (JBool b) = Inr (KNum (if b then 1 else 0))"
| "dict_key (JInt i) = Inr (KNum (of_int i))"
| "dict_key (JFloat r) = Inr (KNum r)"
| "dict_key (JStr s) = Inr (KStr s)"
| "dict_key (JArr xs) = Inl TypeError"
| "dict_key (JObj d) = Inl TypeError"

text \<open>\<^verbatim>\<open>d[k] = v\<close> on an insertion-ordered dict: an existing key keeps its place.\<close>

fun dict_set :: "('k \<times> 'v) list \<Rightarrow> 'k \<Rightarrow> 'v \<Rightarrow> ('k \<times> 'v) list" where
  "dict_set [] k v = [(k, v)]"
| "dict_set ((k', v') # r) k v = (if k' = k then (k', v) # r else (k', v') # dict_set r k v)"

text \<open>\<^verbatim>\<open>x.get(k, default)\<close>: only a dict has the method.\<close>

fun py_get_default :: "json \<Rightarrow> string \<Rightarrow> json \<Rightarrow> error + json" where
  "py_get_default (JObj d) k dflt = Inr (case map_of d k of None \<Rightarrow> dflt | Some v \<Rightarrow> v)"
| "py_get_default _ k dflt = Inl AttributeError"

definition py_get :: "json \<Rightarrow> string \<Rightarrow> error + json" where
  "py_get x k = py_get_default x k JNull"

text \<open>\<^verbatim>\<open>x["k"]\<close> with a string subscript, and \<^verbatim>\<open>x[i]\<close> with a literal index \<open>i \<ge> 0\<close>.\<close>

fun getitem_str :: "json \<Rightarrow> string \<Rightarrow> error + json" where
  "getitem_str (JObj d) k = (case map_of d k of None \<Rightarrow> Inl KeyError | Some v \<Rightarrow> Inr v)"
| "getitem_str _ k = Inl TypeError"

fun getitem_idx :: "json \<Rightarrow> nat \<Rightarrow> error + json" where
  "getitem_idx (JArr xs) i = (if i < length xs then Inr (xs ! i) else Inl IndexError)"
| "getitem_idx (JStr s) i = (if i < length s then Inr (JStr [s ! i]) else Inl IndexError)"
| "getitem_idx (JObj d) i = Inl KeyError"
| "getitem_idx _ i = Inl TypeError"

text \<open>\<^verbatim>\<open>for x in v\<close>: a list gives its elements, a string its characters, a dict its keys.\<close>

fun py_iter :: "json \<Rightarrow> error + json list" where
  "py_iter (JArr xs) = Inr xs"
| "py_iter (JStr s) = Inr (map (\<lambda>c. JStr [c]) s)"
| "py_iter (JObj d) = Inr (map (\<lambda>kv. JStr (fst kv)) d)"
| "py_iter _ = Inl TypeError"

subsection \<open>\<^verbatim>\<open>_safe_get\<close> and \<^verbatim>\<open>_norm\<close>\<close>

text \<open>
  \<^verbatim>\<open>return lst[idx] if isinstance(lst, list) and len(lst) > idx else default\<close>, with the
  default \<^verbatim>\<open>None\<close> that every caller leaves in place.
\<close>

definition safe_get :: "json \<Rightarrow> nat \<Rightarrow> json" where
  "safe_get lst idx =
     (case lst of JArr xs \<Rightarrow> (if length xs > idx then xs ! idx else JNull) | _ \<Rightarrow> JNull)"

text \<open>The characters \<^verbatim>\<open>str.strip()\<close> removes, among code points below 256.\<close>

definition is_space :: "char \<Rightarrow> bool" where
  "is_space c = (of_char c \<in> {9, 10, 11, 12, 13, 28, 29, 30, 31, 32, 133, 160 :: nat})"

definition strip :: "string \<Rightarrow> string" where
  "strip s = rev (dropWhile is_space (rev (dropWhile is_space s)))"

text \<open>
  \<^verbatim>\<open>return (s or "").strip() or None\<close>. Only a string has \<^verbatim>\<open>strip\<close>: a truthy value of
  another type raises AttributeError.
\<close>

definition norm_text :: "json \<Rightarrow> error + json" where
  "norm_text s =
     (case py_or s (JStr []) of
        JStr t \<Rightarrow> Inr (py_or (JStr (strip t)) JNull)
      | _ \<Rightarrow> Inl AttributeError)"

section \<open>UIGraph\<close>

text \<open>
  The three attributes \<^verbatim>\<open>__init__\<close> sets. \<open>nodes\<close> is the dict \<^verbatim>\<open>id -> node\<close> in insertion
  order (the resolver iterates over its values); \<open>links\<close> is the raw value of the
  document's \<^verbatim>\<open>"links"\<close>; \<open>in_edge\<close> is the dict \<^verbatim>\<open>(dst, dst_slot) -> src\<close>, which is only
  ever looked up.
\<close>

record UIGraph =
  nodes :: "(hkey \<times> json) list"
  links :: json
  in_edge :: "(hkey \<times> hkey) \<rightharpoonup> json"

text \<open>\<^verbatim>\<open>{n["id"]: n for n in ...}\<close>\<close>

fun build_nodes :: "json list \<Rightarrow> (hkey \<times> json) list \<Rightarrow> error + (hkey \<times> json) list" where
  "build_nodes [] acc = Inr acc"
| "build_nodes (n # ns) acc =
     bnd (getitem_str n ''id'') (\<lambda>i. bnd (dict_key i) (\<lambda>k. build_nodes ns (dict_set acc k n)))"

text \<open>
  The body of the \<^verbatim>\<open>try\<close>: \<^verbatim>\<open>src, dst, dst_slot = L[1], L[3], L[4]\<close>, then the key
  \<^verbatim>\<open>(dst, dst_slot)\<close> is hashed for the store.
\<close>

definition link_entry :: "json \<Rightarrow> error + ((hkey \<times> hkey) \<times> json)" where
  "link_entry L =
     bnd (getitem_idx L 1) (\<lambda>src.
     bnd (getitem_idx L 3) (\<lambda>dst.
     bnd (getitem_idx L 4) (\<lambda>dst_slot.
     bnd (dict_key dst) (\<lambda>kd.
     bnd (dict_key dst_slot) (\<lambda>ks. Inr ((kd, ks), src))))))"

text \<open>The loop over the links; \<^verbatim>\<open>except Exception: pass\<close> leaves the index as it was.\<close>

fun build_in_edge :: "json list \<Rightarrow> ((hkey \<times> hkey) \<rightharpoonup> json) \<Rightarrow> ((hkey \<times> hkey) \<rightharpoonup> json)" where
  "build_in_edge [] m = m"
| "build_in_edge (L # Ls) m =
     build_in_edge Ls (case link_entry L of Inl e \<Rightarrow> m | Inr (k, src) \<Rightarrow> m(k \<mapsto> src))"

definition UIGraph_init :: "json \<Rightarrow> error + UIGraph" where
  "UIGraph_init workflow =
     bnd (py_get_default workflow ''nodes'' (JArr [])) (\<lambda>nv.
     bnd (py_iter nv) (\<lambda>ns.
     bnd (build_nodes ns []) (\<lambda>nd.
     bnd (py_get_default workflow ''links'' (JArr [])) (\<lambda>lv.
     bnd (py_iter lv) (\<lambda>Ls.
       Inr \<lparr>nodes = nd, links = lv, in_edge = build_in_edge Ls Map.empty\<rparr>)))))"

text \<open>\<^verbatim>\<open>return self.in_edge.get((dst_id, dst_slot))\<close>\<close>

definition src_for :: "UIGraph \<Rightarrow> json \<Rightarrow> json \<Rightarrow> error + json" where
  "src_for g dst_id dst_slot =
     bnd (dict_key dst_id) (\<lambda>kd.
     bnd (dict_key dst_slot) (\<lambda>ks.
       Inr (case in_edge g (kd, ks) of None \<Rightarrow> JNull | Some v \<Rightarrow> v)))"

subsection \<open>Class constants\<close>

definition KNOWN_POSNEG_SAMPLERS :: "string list" where
  "KNOWN_POSNEG_SAMPLERS = [''KSampler'', ''ClownsharKSampler_Beta'']"

definition KNOWN_TEXT_EMBEDS_SAMPLERS :: "string list" where
  "KNOWN_TEXT_EMBEDS_SAMPLERS = [''WanVideoSampler'']"

definition OUTPUT_TYPES :: "string set" where
  "OUTPUT_TYPES = {''VHS_VideoCombine'', ''SaveImage'', ''WanVideoDecode''}"

text \<open>
  \<^verbatim>\<open>ENCODER_READERS\<close>, a dict from type name to a reader \<^verbatim>\<open>lambda n, w, which\<close>; the key
  looked up has been hashed.
\<close>

definition ENCODER_READERS :: "hkey \<Rightarrow> (json \<Rightarrow> json \<Rightarrow> json \<Rightarrow> error + json) option" where
  "ENCODER_READERS k =
     (if k = KStr ''CLIPTextEncode'' then Some (\<lambda>n w which. norm_text (safe_get w 0))
      else if k = KStr ''TextEncodeQwenImageEdit'' then Some (\<lambda>n w which. norm_text (safe_get w 0))
      else if k = KStr ''WanVideoTextEncode'' then
        Some (\<lambda>n w which. norm_text (if which = JStr ''negative'' then safe_get w 1 else safe_get w 0))
      else None)"

subsection \<open>Lookups\<close>

text \<open>\<^verbatim>\<open>self.nodes.get(k)\<close>, after the key has been hashed.\<close>

definition nodes_get :: "UIGraph \<Rightarrow> hkey \<Rightarrow> json" where
  "nodes_get g k = (case map_of (nodes g) k of None \<Rightarrow> JNull | Some n \<Rightarrow> n)"

text \<open>A list comprehension with a condition that can raise.\<close>

fun filter_err :: "('a \<Rightarrow> error + bool) \<Rightarrow> 'a list \<Rightarrow> error + 'a list" where
  "filter_err p [] = Inr []"
| "filter_err p (x # xs) =
     bnd (p x) (\<lambda>b. bnd (filter_err p xs) (\<lambda>ys. Inr (if b then x # ys else ys)))"

text \<open>
  \<^verbatim>\<open>find_nodes\<close>; a single type name is wrapped into a tuple first, so \<open>types\<close> is the
  sequence of names. Membership in the set \<^verbatim>\<open>tset\<close> hashes the node's type.
\<close>

definition find_nodes :: "UIGraph \<Rightarrow> string list \<Rightarrow> error + json list" where
  "find_nodes g types =
     filter_err (\<lambda>n. bnd (py_get n ''type'') (\<lambda>t. bnd (dict_key t) (\<lambda>k. Inr (k \<in> KStr ` set types))))
       (map snd (nodes g))"

definition first_node :: "UIGraph \<Rightarrow> string list \<Rightarrow> error + json" where
  "first_node g types =
     bnd (find_nodes g types) (\<lambda>ns. Inr (case ns of [] \<Rightarrow> JNull | n # _ \<Rightarrow> n))"

text \<open>
  \<^verbatim>\<open>input_index\<close>: \<^verbatim>\<open>for idx, inp in enumerate(node.get("inputs") or [])\<close>, returning at the
  first input whose name matches; \<^verbatim>\<open>None\<close> when there is none.
\<close>

fun input_scan :: "json list \<Rightarrow> string \<Rightarrow> nat \<Rightarrow> error + json" where
  "input_scan [] name idx = Inr JNull"
| "input_scan (inp # r) name idx =
     bnd (py_get inp ''name'') (\<lambda>v.
       if v = JStr name then Inr (JInt (int idx)) else input_scan r name (Suc idx))"

definition input_index :: "json \<Rightarrow> string \<Rightarrow> error + json" where
  "input_index node name =
     bnd (py_get node ''inputs'') (\<lambda>i.
     bnd (py_iter (py_or i (JArr []))) (\<lambda>ins. input_scan ins name 0))"

text \<open>
  \<^verbatim>\<open>ins = n.get("inputs") or []\<close> and \<^verbatim>\<open>names = [i.get("name") for i in ins]\<close>, as both
  sampler searches compute them.
\<close>

definition input_names :: "json \<Rightarrow> error + json list" where
  "input_names n =
     bnd (py_get n ''inputs'') (\<lambda>i.
     bnd (py_iter (py_or i (JArr []))) (\<lambda>ins. map_err (\<lambda>i. py_get i ''name'') ins))"

text \<open>
  \<^verbatim>\<open>read_text_from_node\<close>. \<open>which\<close> is the hint as passed (\<^verbatim>\<open>None\<close> by default).
\<close>

definition read_text_from_node :: "UIGraph \<Rightarrow> json \<Rightarrow> json \<Rightarrow> error + json" where
  "read_text_from_node g nid which =
     (if nid = JNull then Inr JNull
      else
        bnd (dict_key nid) (\<lambda>k.
        let n = py_or (nodes_get g k) (JObj []) in
        bnd (py_get n ''type'') (\<lambda>node_type.
        bnd (py_get n ''widgets_values'') (\<lambda>widgets.
        bnd (dict_key node_type) (\<lambda>tk.
          case ENCODER_READERS tk of
            Some reader \<Rightarrow> reader n widgets which
          | None \<Rightarrow> Inr JNull)))))"

subsection \<open>\<^verbatim>\<open>_reaches_output\<close>\<close>

text \<open>
  \<^verbatim>\<open>out_by_src.setdefault(L[1], []).append(L[3])\<close> for every link: \<^verbatim>\<open>L[1]\<close> is read and
  hashed, then \<^verbatim>\<open>L[3]\<close> is read. No \<^verbatim>\<open>try\<close> surrounds this loop.
\<close>

fun out_by_src :: "json list \<Rightarrow> (hkey \<rightharpoonup> json list) \<Rightarrow> error + (hkey \<rightharpoonup> json list)" where
  "out_by_src [] m = Inr m"
| "out_by_src (L # Ls) m =
     bnd (getitem_idx L 1) (\<lambda>src.
     bnd (dict_key src) (\<lambda>k.
     bnd (getitem_idx L 3) (\<lambda>dst.
       out_by_src Ls (m(k \<mapsto> (case m k of None \<Rightarrow> [] | Some ds \<Rightarrow> ds) @ [dst])))))"

text \<open>
  The traversal. A node id in the queue or in \<^verbatim>\<open>seen\<close> is held by its key. The inner
  loop either returns \<^verbatim>\<open>True\<close> from the whole function or goes on with \<^verbatim>\<open>seen\<close> and \<^verbatim>\<open>nxt\<close>
  updated.
\<close>

datatype scan = ReturnTrue | Go "hkey set" "hkey list"

fun scan_dsts :: "UIGraph \<Rightarrow> json list \<Rightarrow> hkey set \<Rightarrow> hkey list \<Rightarrow> error + scan" where
  "scan_dsts g [] seen nxt = Inr (Go seen nxt)"
| "scan_dsts g (dst # ds) seen nxt =
     bnd (dict_key dst) (\<lambda>k.
       if k \<in> seen then scan_dsts g ds seen nxt
       else
         bnd (py_get (py_or (nodes_get g k) (JObj [])) ''type'') (\<lambda>t.
         bnd (dict_key t) (\<lambda>tk.
           if tk \<in> KStr ` OUTPUT_TYPES then Inr ReturnTrue
           else scan_dsts g ds (insert k seen) (nxt @ [k]))))"

fun scan_layer ::
  "UIGraph \<Rightarrow> (hkey \<rightharpoonup> json list) \<Rightarrow> hkey list \<Rightarrow> hkey set \<Rightarrow> hkey list \<Rightarrow> error + scan" where
  "scan_layer g out [] seen nxt = Inr (Go seen nxt)"
| "scan_layer g out (nid # q) seen nxt =
     (case scan_dsts g (case out nid of None \<Rightarrow> [] | Some ds \<Rightarrow> ds) seen nxt of
        Inl e \<Rightarrow> Inl e
      | Inr ReturnTrue \<Rightarrow> Inr ReturnTrue
      | Inr (Go seen' nxt') \<Rightarrow> scan_layer g out q seen' nxt')"

function bfs ::
  "UIGraph \<Rightarrow> (hkey \<rightharpoonup> json list) \<Rightarrow> hkey list \<Rightarrow> hkey set \<Rightarrow> nat \<Rightarrow> nat \<Rightarrow> error + bool" where
  "bfs g out q seen hops max_hops =
     (if q \<noteq> [] \<and> hops < max_hops then
        (case scan_layer g out q seen [] of
           Inl e \<Rightarrow> Inl e
         | Inr ReturnTrue \<Rightarrow> Inr True
         | Inr (Go seen' nxt) \<Rightarrow> bfs g out nxt seen' (hops + 1) max_hops)
      else Inr False)"
  by pat_completeness auto
termination
  by (relation "measure (\<lambda>(g, out, q, seen, hops, max_hops). max_hops - hops)") auto

definition reaches_output :: "UIGraph \<Rightarrow> json \<Rightarrow> nat \<Rightarrow> error + bool" where
  "reaches_output g start_id max_hops =
     bnd (py_iter (links g)) (\<lambda>Ls.
     bnd (out_by_src Ls Map.empty) (\<lambda>out.
     bnd (dict_key start_id) (\<lambda>s. bfs g out [s] {s} 0 max_hops)))"

subsection \<open>Sampler selection\<close>

text \<open>
  The body of the candidate loop of \<^verbatim>\<open>sampler_with_posneg\<close> for one node: whether the node
  is appended to \<^verbatim>\<open>candidates\<close>. The log line of the skipped case formats \<^verbatim>\<open>n['id']\<close>.
\<close>

definition posneg_candidate :: "UIGraph \<Rightarrow> json \<Rightarrow> error + bool" where
  "posneg_candidate g n =
     bnd (py_get n ''type'') (\<lambda>node_type.
       if node_type \<notin> set (map JStr KNOWN_POSNEG_SAMPLERS) then
         bnd (getitem_str n ''id'') (\<lambda>_. Inr False)
       else
         bnd (input_names n) (\<lambda>names.
           if JStr ''positive'' \<in> set names \<and> JStr ''negative'' \<in> set names then
             bnd (input_index n ''positive'') (\<lambda>pos_idx.
             bnd (input_index n ''negative'') (\<lambda>neg_idx.
             bnd (getitem_str n ''id'') (\<lambda>i.
             bnd (src_for g i pos_idx) (\<lambda>pos_src.
             bnd (src_for g i neg_idx) (\<lambda>neg_src.
               Inr (pos_src \<noteq> JNull \<or> neg_src \<noteq> JNull))))))
           else Inr False))"

definition text_embeds_candidate :: "UIGraph \<Rightarrow> json \<Rightarrow> error + bool" where
  "text_embeds_candidate g n =
     bnd (py_get n ''type'') (\<lambda>node_type.
       if node_type \<notin> set (map JStr KNOWN_TEXT_EMBEDS_SAMPLERS) then
         bnd (getitem_str n ''id'') (\<lambda>_. Inr False)
       else
         bnd (input_names n) (\<lambda>names.
           if JStr ''text_embeds'' \<in> set names then
             bnd (input_index n ''text_embeds'') (\<lambda>embeds_idx.
             bnd (getitem_str n ''id'') (\<lambda>i.
             bnd (src_for g i embeds_idx) (\<lambda>embeds_src.
               Inr (embeds_src \<noteq> JNull))))
           else Inr False))"

text \<open>
  The two loops that follow the candidate scan, the same in both searches:
  \<^verbatim>\<open>for candidate in candidates: if self._reaches_output(candidate["id"]): return candidate\<close>,
  then \<^verbatim>\<open>candidates[0]\<close> if there is a candidate, else \<^verbatim>\<open>None\<close>.
\<close>

fun first_reaching :: "UIGraph \<Rightarrow> json list \<Rightarrow> error + json option" where
  "first_reaching g [] = Inr None"
| "first_reaching g (c # cs) =
     bnd (getitem_str c ''id'') (\<lambda>i.
     bnd (reaches_output g i 200) (\<lambda>b.
       if b then Inr (Some c) else first_reaching g cs))"

definition select_candidate :: "UIGraph \<Rightarrow> json list \<Rightarrow> error + json" where
  "select_candidate g candidates =
     bnd (first_reaching g candidates) (\<lambda>r.
       Inr (case r of
              Some c \<Rightarrow> c
            | None \<Rightarrow> (case candidates of [] \<Rightarrow> JNull | c # _ \<Rightarrow> c)))"

definition sampler_with_posneg :: "UIGraph \<Rightarrow> error + json" where
  "sampler_with_posneg g =
     bnd (filter_err (posneg_candidate g) (map snd (nodes g))) (select_candidate g)"

definition sampler_with_text_embeds :: "UIGraph \<Rightarrow> error + json" where
  "sampler_with_text_embeds g =
     bnd (filter_err (text_embeds_candidate g) (map snd (nodes g))) (select_candidate g)"

section \<open>\<^verbatim>\<open>extract_prompts\<close>\<close>

text \<open>\<^verbatim>\<open>g.src_for(node["id"], idx) if idx is not None else None\<close>\<close>

definition src_of_input :: "UIGraph \<Rightarrow> json \<Rightarrow> json \<Rightarrow> error + json" where
  "src_of_input g node idx =
     (if idx \<noteq> JNull then bnd (getitem_str node ''id'') (\<lambda>i. src_for g i idx) else Inr JNull)"

text \<open>
  (a) Sampler with pos/neg inputs: the pair \<^verbatim>\<open>(pos, neg)\<close> read when a sampler is found,
  before the test \<^verbatim>\<open>if pos or neg\<close>; \<open>None\<close> when \<^verbatim>\<open>sampler\<close> is falsy.
\<close>

definition posneg_stage :: "UIGraph \<Rightarrow> error + (json \<times> json) option" where
  "posneg_stage g =
     bnd (sampler_with_posneg g) (\<lambda>sampler.
       if truthy sampler then
         bnd (getitem_str sampler ''id'') (\<lambda>_.
         bnd (input_index sampler ''positive'') (\<lambda>pos_idx.
         bnd (input_index sampler ''negative'') (\<lambda>neg_idx.
         bnd (src_of_input g sampler pos_idx) (\<lambda>pos_src.
         bnd (src_of_input g sampler neg_idx) (\<lambda>neg_src.
         bnd (read_text_from_node g pos_src (JStr ''positive'')) (\<lambda>pos.
         bnd (read_text_from_node g neg_src (JStr ''negative'')) (\<lambda>neg.
           Inr (Some (pos, neg)))))))))
       else Inr None)"

text \<open>
  (b) Sampler with text_embeds: which branch is taken and what it reads. \<open>Bridge\<close> is the
  branch \<^verbatim>\<open>src_type == "WanVideoTextEmbedBridge"\<close> with its \<^verbatim>\<open>(pos, neg)\<close> before the test
  \<^verbatim>\<open>if pos or neg\<close>; \<open>Encoder\<close> is the branch \<^verbatim>\<open>src_type == "WanVideoTextEncode"\<close> with the two
  values it returns; \<open>NoSource\<close> is every path that falls out of the block.
\<close>

datatype embeds_outcome = NoSource | Bridge json json | Encoder json json

definition embeds_stage :: "UIGraph \<Rightarrow> error + embeds_outcome" where
  "embeds_stage g =
     bnd (sampler_with_text_embeds g) (\<lambda>sampler.
       if truthy sampler then
         bnd (getitem_str sampler ''id'') (\<lambda>_.
         bnd (input_index sampler ''text_embeds'') (\<lambda>embeds_idx.
         bnd (src_of_input g sampler embeds_idx) (\<lambda>embeds_src.
           if truthy embeds_src then
             bnd (dict_key embeds_src) (\<lambda>k.
             let src_node = (case map_of (nodes g) k of None \<Rightarrow> JObj [] | Some n \<Rightarrow> n) in
             bnd (py_get src_node ''type'') (\<lambda>src_type.
               if src_type = JStr ''WanVideoTextEmbedBridge'' then
                 bnd (input_index src_node ''positive'') (\<lambda>p_idx.
                 bnd (input_index src_node ''negative'') (\<lambda>n_idx.
                 bnd (src_of_input g src_node p_idx) (\<lambda>p_src.
                 bnd (src_of_input g src_node n_idx) (\<lambda>n_src.
                 bnd (read_text_from_node g p_src (JStr ''positive'')) (\<lambda>pos.
                 bnd (read_text_from_node g n_src (JStr ''negative'')) (\<lambda>neg.
                   Inr (Bridge pos neg)))))))
               else if src_type = JStr ''WanVideoTextEncode'' then
                 bnd (py_get src_node ''widgets_values'') (\<lambda>wv.
                   let w = py_or wv (JArr []) in Inr (Encoder (safe_get w 0) (safe_get w 1)))
               else Inr NoSource))
           else Inr NoSource)))
       else Inr NoSource)"

text \<open>(c) Fallback: standalone WanVideoTextEncode in the graph, then the final return.\<close>

definition wte_stage :: "UIGraph \<Rightarrow> error + (json \<times> json)" where
  "wte_stage g =
     bnd (first_node g [''WanVideoTextEncode'']) (\<lambda>wte.
       if truthy wte then
         bnd (getitem_str wte ''id'') (\<lambda>_.
         bnd (py_get wte ''widgets_values'') (\<lambda>wv.
           let w = py_or wv (JArr []) in Inr (safe_get w 0, safe_get w 1)))
       else Inr (JNull, JNull))"

definition embeds_then_wte :: "UIGraph \<Rightarrow> error + (json \<times> json)" where
  "embeds_then_wte g =
     bnd (embeds_stage g) (\<lambda>b.
       case b of
         Bridge pos neg \<Rightarrow> if truthy pos \<or> truthy neg then Inr (pos, neg) else wte_stage g
       | Encoder pos neg \<Rightarrow> Inr (pos, neg)
       | NoSource \<Rightarrow> wte_stage g)"

definition ui_path :: "json \<Rightarrow> error + (json \<times> json)" where
  "ui_path workflow =
     bnd (UIGraph_init workflow) (\<lambda>g.
     bnd (posneg_stage g) (\<lambda>a.
       case a of
         Some (pos, neg) \<Rightarrow> if truthy pos \<or> truthy neg then Inr (pos, neg) else embeds_then_wte g
       | None \<Rightarrow> embeds_then_wte g))"

text \<open>
  The API graph format. \<^verbatim>\<open>isinstance(node, dict) and node.get("class_type") == c\<close>:
\<close>

definition has_class :: "json \<Rightarrow> string \<Rightarrow> bool" where
  "has_class node c =
     (case node of JObj nd \<Rightarrow> (case map_of nd ''class_type'' of None \<Rightarrow> False | Some v \<Rightarrow> v = JStr c)
      | _ \<Rightarrow> False)"

text \<open>
  \<^verbatim>\<open>"k" in x\<close>: a key of a dict, an element of a list, a substring of a string; any other
  operand is a TypeError.
\<close>

fun py_contains :: "json \<Rightarrow> string \<Rightarrow> error + bool" where
  "py_contains (JObj d) k = Inr (k \<in> fst ` set d)"
| "py_contains (JArr xs) k = Inr (JStr k \<in> set xs)"
| "py_contains (JStr s) k = Inr (list_ex (\<lambda>i. take (length k) (drop i s) = k) [0..<Suc (length s)])"
| "py_contains _ k = Inl TypeError"

text \<open>The first loop over \<^verbatim>\<open>workflow.items()\<close>; \<open>None\<close> when it ends without returning.\<close>

fun api_wte :: "(string \<times> json) list \<Rightarrow> error + (json \<times> json) option" where
  "api_wte [] = Inr None"
| "api_wte ((nid, node) # r) =
     (if has_class node ''WanVideoTextEncode'' then
        bnd (py_get_default node ''inputs'' (JObj [])) (\<lambda>inputs.
        bnd (py_get inputs ''positive_prompt'') (\<lambda>pos.
        bnd (py_get inputs ''negative_prompt'') (\<lambda>neg. Inr (Some (pos, neg)))))
      else api_wte r)"

text \<open>The second loop.\<close>

fun api_qwen :: "(string \<times> json) list \<Rightarrow> error + (json \<times> json) option" where
  "api_qwen [] = Inr None"
| "api_qwen ((nid, node) # r) =
     (if has_class node ''TextEncodeQwenImageEdit'' then
        bnd (py_get_default node ''inputs'' (JObj [])) (\<lambda>inputs.
        bnd (py_contains inputs ''prompt'') (\<lambda>b.
          if b then bnd (getitem_str inputs ''prompt'') (\<lambda>p. Inr (Some (p, JNull)))
          else api_qwen r))
      else api_qwen r)"

definition api_path :: "(string \<times> json) list \<Rightarrow> error + (json \<times> json)" where
  "api_path d =
     bnd (api_wte d) (\<lambda>a.
       case a of
         Some r \<Rightarrow> Inr r
       | None \<Rightarrow> bnd (api_qwen d) (\<lambda>b. Inr (case b of Some r \<Rightarrow> r | None \<Rightarrow> (JNull, JNull))))"

text \<open>
  The result is the pair \<^verbatim>\<open>(positive, negative)\<close> of the returned dict. A document that is
  not a dict gives \<^verbatim>\<open>(None, None)\<close> after the printed message.
\<close>

definition extract_prompts :: "json \<Rightarrow> error + (json \<times> json)" where
  "extract_prompts workflow =
     (case workflow of
        JObj d \<Rightarrow> if ''nodes'' \<in> fst ` set d then ui_path workflow else api_path d
      | _ \<Rightarrow> Inr (JNull, JNull))"

section \<open>Notions of the specification\<close>

text \<open>
  A link is indexed under the key \<open>k\<close> when the \<^verbatim>\<open>try\<close> body runs through for it and
  stores under \<open>k\<close>: this is the sense in which \<^verbatim>\<open>__init__\<close> takes a link as well formed.
  It is the notion of the code, read off \<open>link_entry\<close>; \<open>link_source\<close> is the source
  field as the loop reads it.
\<close>

definition targets :: "hkey \<times> hkey \<Rightarrow> json \<Rightarrow> bool" where
  "targets k L = (case link_entry L of Inl e \<Rightarrow> False | Inr (k', src) \<Rightarrow> k' = k)"

definition link_source :: "json \<Rightarrow> json" where
  "link_source L = (case getitem_idx L 1 of Inl e \<Rightarrow> JNull | Inr src \<Rightarrow> src)"


section \<open>Example documents\<close>


text \<open>
  A lone dual-prompt encoder whose two widgets are blank, in the editor shape and in the
  API shape.
\<close>

definition doc_blank_encoder :: json where
  "doc_blank_encoder =
     JObj [(''nodes'', JArr [JObj [(''id'', JInt 1), (''type'', JStr ''WanVideoTextEncode''),
                                   (''widgets_values'', JArr [JStr ''   '', JStr ''''])]]),
           (''links'', JArr [])]"

definition doc_blank_api :: json where
  "doc_blank_api =
     JObj [(''6'', JObj [(''class_type'', JStr ''WanVideoTextEncode''),
                         (''inputs'', JObj [(''positive_prompt'', JStr ''   ''),
                                            (''negative_prompt'', JStr '''')])])]"

text \<open>
  A sampler fed by an encoder, and a second link entry that is too short.
\<close>

definition doc_short_link :: json where
  "doc_short_link =
     JObj [(''nodes'', JArr [JObj [(''id'', JInt 1), (''type'', JStr ''KSampler''),
                                   (''inputs'', JArr [JObj [(''name'', JStr ''positive'')],
                                                      JObj [(''name'', JStr ''negative'')]])],
                             JObj [(''id'', JInt 2), (''type'', JStr ''CLIPTextEncode''),
                                   (''widgets_values'', JArr [JStr ''a cat''])]]),
           (''links'', JArr [JArr [JInt 10, JInt 2, JInt 0, JInt 1, JInt 0, JStr ''CONDITIONING''],
                             JArr [JInt 11]])]"

text \<open>
  An aggregated-embedding sampler wired to a dual-prompt encoder that has no widget
  values, next to an unwired dual-prompt encoder that has both prompts.
\<close>

definition doc_empty_wired_encoder :: json where
  "doc_empty_wired_encoder =
     JObj [(''nodes'', JArr [JObj [(''id'', JInt 1), (''type'', JStr ''WanVideoTextEncode''),
                                   (''widgets_values'', JArr [JStr ''hello'', JStr ''bad''])],
                             JObj [(''id'', JInt 2), (''type'', JStr ''WanVideoTextEncode'')],
                             JObj [(''id'', JInt 3), (''type'', JStr ''WanVideoSampler''),
                                   (''inputs'', JArr [JObj [(''name'', JStr ''text_embeds'')]])]]),
           (''links'', JArr [JArr [JInt 1, JInt 2, JInt 0, JInt 3, JInt 0, JStr ''WANVIDEOTEXTEMBEDS'']])]"

text \<open>
  Two pos/neg samplers fed by the same encoders; only the second one, node 2, is wired on
  to an output node.
\<close>

definition doc_two_samplers :: json where
  "doc_two_samplers =
     JObj [(''nodes'', JArr [JObj [(''id'', JInt 1), (''type'', JStr ''KSampler''),
                                   (''inputs'', JArr [JObj [(''name'', JStr ''positive'')],
                                                      JObj [(''name'', JStr ''negative'')]])],
                             JObj [(''id'', JInt 2), (''type'', JStr ''KSampler''),
                                   (''inputs'', JArr [JObj [(''name'', JStr ''positive'')],
                                                      JObj [(''name'', JStr ''negative'')]])],
                             JObj [(''id'', JInt 3), (''type'', JStr ''CLIPTextEncode''),
                                   (''widgets_values'', JArr [JStr ''good''])],
                             JObj [(''id'', JInt 4), (''type'', JStr ''CLIPTextEncode''),
                                   (''widgets_values'', JArr [JStr ''bad''])],
                             JObj [(''id'', JInt 5), (''type'', JStr ''SaveImage'')]]),
           (''links'', JArr [JArr [JInt 1, JInt 3, JInt 0, JInt 1, JInt 0, JStr ''CONDITIONING''],
                             JArr [JInt 2, JInt 3, JInt 0, JInt 2, JInt 0, JStr ''CONDITIONING''],
                             JArr [JInt 3, JInt 4, JInt 0, JInt 2, JInt 1, JStr ''CONDITIONING''],
                             JArr [JInt 4, JInt 2, JInt 0, JInt 5, JInt 0, JStr ''LATENT'']])]"

text \<open>
  Two pos/neg samplers: the first one, node 1, is wired on to a preview node that leads
  nowhere; the second one, node 2, is wired through a decoder to a \<^verbatim>\<open>SaveImage\<close> node.
\<close>

definition doc_dead_end_sampler :: json where
  "doc_dead_end_sampler =
     JObj [(''nodes'', JArr [JObj [(''id'', JInt 1), (''type'', JStr ''KSampler''),
                                   (''inputs'', JArr [JObj [(''name'', JStr ''positive'')],
                                                      JObj [(''name'', JStr ''negative'')]])],
                             JObj [(''id'', JInt 2), (''type'', JStr ''KSampler''),
                                   (''inputs'', JArr [JObj [(''name'', JStr ''positive'')],
                                                      JObj [(''name'', JStr ''negative'')]])],
                             JObj [(''id'', JInt 3), (''type'', JStr ''CLIPTextEncode''),
                                   (''widgets_values'', JArr [JStr ''good''])],
                             JObj [(''id'', JInt 4), (''type'', JStr ''CLIPTextEncode''),
                                   (''widgets_values'', JArr [JStr ''bad''])],
                             JObj [(''id'', JInt 5), (''type'', JStr ''SaveImage'')],
                             JObj [(''id'', JInt 6), (''type'', JStr ''PreviewImage'')],
                             JObj [(''id'', JInt 7), (''type'', JStr ''VAEDecode'')]]),
           (''links'', JArr [JArr [JInt 1, JInt 4, JInt 0, JInt 1, JInt 0, JStr ''CONDITIONING''],
                             JArr [JInt 2, JInt 3, JInt 0, JInt 2, JInt 0, JStr ''CONDITIONING''],
                             JArr [JInt 3, JInt 4, JInt 0, JInt 2, JInt 1, JStr ''CONDITIONING''],
                             JArr [JInt 4, JInt 1, JInt 0, JInt 6, JInt 0, JStr ''IMAGE''],
                             JArr [JInt 5, JInt 2, JInt 0, JInt 7, JInt 0, JStr ''LATENT''],
                             JArr [JInt 6, JInt 7, JInt 0, JInt 5, JInt 0, JStr ''IMAGE'']])]"

text \<open>The same graph with a link entry of one field at the end of the sequence.\<close>

definition doc_two_samplers_short_link :: json where
  "doc_two_samplers_short_link =
     JObj [(''nodes'', JArr [JObj [(''id'', JInt 1), (''type'', JStr ''KSampler''),
                                   (''inputs'', JArr [JObj [(''name'', JStr ''positive'')],
                                                      JObj [(''name'', JStr ''negative'')]])],
                             JObj [(''id'', JInt 2), (''type'', JStr ''KSampler''),
                                   (''inputs'', JArr [JObj [(''name'', JStr ''positive'')],
                                                      JObj [(''name'', JStr ''negative'')]])],
                             JObj [(''id'', JInt 3), (''type'', JStr ''CLIPTextEncode''),
                                   (''widgets_values'', JArr [JStr ''good''])],
                             JObj [(''id'', JInt 4), (''type'', JStr ''CLIPTextEncode''),
                                   (''widgets_values'', JArr [JStr ''bad''])],
                             JObj [(''id'', JInt 5), (''type'', JStr ''SaveImage'')]]),
           (''links'', JArr [JArr [JInt 1, JInt 3, JInt 0, JInt 1, JInt 0, JStr ''CONDITIONING''],
                             JArr [JInt 2, JInt 3, JInt 0, JInt 2, JInt 0, JStr ''CONDITIONING''],
                             JArr [JInt 3, JInt 4, JInt 0, JInt 2, JInt 1, JStr ''CONDITIONING''],
                             JArr [JInt 4, JInt 2, JInt 0, JInt 5, JInt 0, JStr ''LATENT''],
                             JArr [JInt 11]])]"

text \<open>The reachability check as the selection loop calls it on a candidate.\<close>

definition candidate_reaches :: "UIGraph \<Rightarrow> json \<Rightarrow> error + bool" where
  "candidate_reaches g c = bnd (getitem_str c ''id'') (\<lambda>i. reaches_output g i 200)"

text \<open>The document takes the editor-graph path of \<^verbatim>\<open>extract_prompts\<close>.\<close>

definition editor_shape :: "json \<Rightarrow> bool" where
  "editor_shape workflow = (case workflow of JObj d \<Rightarrow> ''nodes'' \<in> fst ` set d | _ \<Rightarrow> False)"

text \<open>Strategy (a) has nothing to return: no sampler, or both texts absent.\<close>

definition posneg_yields_nothing :: "UIGraph \<Rightarrow> bool" where
  "posneg_yields_nothing g =
     (posneg_stage g = Inr None \<or> posneg_stage g = Inr (Some (JNull, JNull)))"

text \<open>Strategy (b) has nothing to return: it falls out of its block.\<close>

definition embeds_yields_nothing :: "UIGraph \<Rightarrow> bool" where
  "embeds_yields_nothing g =
     (embeds_stage g = Inr NoSource \<or> embeds_stage g = Inr (Bridge JNull JNull))"

text \<open>Values that Python can hash: everything but a list and a dict.\<close>

definition hashable :: "json \<Rightarrow> bool" where
  "hashable v = (case v of JArr xs \<Rightarrow> False | JObj d \<Rightarrow> False | _ \<Rightarrow> True)"

text \<open>A node entry that the dict comprehension of \<^verbatim>\<open>__init__\<close> can store.\<close>

definition node_entry_ok :: "json \<Rightarrow> bool" where
  "node_entry_ok n =
     (case n of
        JObj d \<Rightarrow> (case map_of d ''id'' of None \<Rightarrow> False | Some i \<Rightarrow> hashable i)
      | _ \<Rightarrow> False)"


text \<open>
  The shape of an entry that is not passed over: a list of five fields or more whose
  fields 3 and 4 are hashable, or a string of five characters or more.
\<close>

definition readable_link :: "json \<Rightarrow> bool" where
  "readable_link L =
     (case L of
        JArr xs \<Rightarrow> 5 \<le> length xs \<and> hashable (xs ! 3) \<and> hashable (xs ! 4)
      | JStr s \<Rightarrow> 5 \<le> length s
      | _ \<Rightarrow> False)"

text \<open>
  Field \<open>i\<close> of a link entry \<^verbatim>\<open>[link id, source id, source slot, destination id,
  destination slot, data type]\<close>, read from the entry itself (a list, or a string with its
  characters as fields).
\<close>

definition link_field :: "json \<Rightarrow> nat \<Rightarrow> json" where
  "link_field L i = (case L of JArr xs \<Rightarrow> xs ! i | JStr s \<Rightarrow> JStr [s ! i] | _ \<Rightarrow> JNull)"

text \<open>
  The specification's reading of a link with the destination key \<open>k\<close>, stated on the
  fields of the entry and not on the loop of \<^verbatim>\<open>__init__\<close>: the entry has five fields or
  more, and its fields 3 and 4, the destination id and the destination slot, are the two
  components of \<open>k\<close>.
\<close>

definition has_destination :: "hkey \<times> hkey \<Rightarrow> json \<Rightarrow> bool" where
  "has_destination k L =
     (readable_link L \<and> dict_key (link_field L 3) = Inr (fst k)
        \<and> dict_key (link_field L 4) = Inr (snd k))"




text \<open>The widget position that the extraction rule of a node type reads, given the hint.\<close>

definition widget_position :: "hkey \<Rightarrow> json \<Rightarrow> nat" where
  "widget_position tk which =
     (if tk = KStr ''WanVideoTextEncode'' \<and> which = JStr ''negative'' then 1 else 0)"

text \<open>A widget value that \<^verbatim>\<open>_norm\<close> accepts: a string, or any falsy value.\<close>

definition text_or_falsy :: "json \<Rightarrow> bool" where
  "text_or_falsy v = (case v of JStr t \<Rightarrow> True | _ \<Rightarrow> \<not> truthy v)"

text \<open>An encoder whose first widget is a number.\<close>

definition doc_number_widget :: json where
  "doc_number_widget =
     JObj [(''nodes'', JArr [JObj [(''id'', JInt 1), (''type'', JStr ''CLIPTextEncode''),
                                   (''widgets_values'', JArr [JInt 42])]]),
           (''links'', JArr [])]"

text \<open>
  The source wired to the input of a node that has the given name: the slot index by
  \<^verbatim>\<open>input_index\<close>, then the reverse lookup, as \<^verbatim>\<open>extract_prompts\<close> chains them.
\<close>

definition upstream :: "UIGraph \<Rightarrow> json \<Rightarrow> string \<Rightarrow> error + json" where
  "upstream g node name = bnd (input_index node name) (src_of_input g node)"

text \<open>
  A fully wired sampler first, then a sampler of which only the negative input is wired;
  neither reaches an output node.
\<close>

definition doc_partial_second :: json where
  "doc_partial_second =
     JObj [(''nodes'', JArr [JObj [(''id'', JInt 1), (''type'', JStr ''KSampler''),
                                   (''inputs'', JArr [JObj [(''name'', JStr ''positive'')],
                                                      JObj [(''name'', JStr ''negative'')]])],
                             JObj [(''id'', JInt 2), (''type'', JStr ''KSampler''),
                                   (''inputs'', JArr [JObj [(''name'', JStr ''positive'')],
                                                      JObj [(''name'', JStr ''negative'')]])],
                             JObj [(''id'', JInt 3), (''type'', JStr ''CLIPTextEncode''),
                                   (''widgets_values'', JArr [JStr ''good''])],
                             JObj [(''id'', JInt 4), (''type'', JStr ''CLIPTextEncode''),
                                   (''widgets_values'', JArr [JStr ''bad''])],
                             JObj [(''id'', JInt 5), (''type'', JStr ''CLIPTextEncode''),
                                   (''widgets_values'', JArr [JStr ''ugly''])]]),
           (''links'', JArr [JArr [JInt 1, JInt 3, JInt 0, JInt 1, JInt 0, JStr ''CONDITIONING''],
                             JArr [JInt 2, JInt 4, JInt 0, JInt 1, JInt 1, JStr ''CONDITIONING''],
                             JArr [JInt 3, JInt 5, JInt 0, JInt 2, JInt 1, JStr ''CONDITIONING'']])]"

text \<open>One sampler, of which only the negative input is wired.\<close>

definition doc_negative_only :: json where
  "doc_negative_only =
     JObj [(''nodes'', JArr [JObj [(''id'', JInt 1), (''type'', JStr ''KSampler''),
                                   (''inputs'', JArr [JObj [(''name'', JStr ''positive'')],
                                                      JObj [(''name'', JStr ''negative'')]])],
                             JObj [(''id'', JInt 2), (''type'', JStr ''CLIPTextEncode''),
                                   (''widgets_values'', JArr [JStr ''ugly''])]]),
           (''links'', JArr [JArr [JInt 1, JInt 2, JInt 0, JInt 1, JInt 1, JStr ''CONDITIONING'']])]"

text \<open>An aggregated-embedding sampler fed through a bridge by two encoders.\<close>

definition doc_bridge :: json where
  "doc_bridge =
     JObj [(''nodes'', JArr [JObj [(''id'', JInt 1), (''type'', JStr ''WanVideoSampler''),
                                   (''inputs'', JArr [JObj [(''name'', JStr ''text_embeds'')]])],
                             JObj [(''id'', JInt 2), (''type'', JStr ''WanVideoTextEmbedBridge''),
                                   (''inputs'', JArr [JObj [(''name'', JStr ''positive'')],
                                                      JObj [(''name'', JStr ''negative'')]])],
                             JObj [(''id'', JInt 3), (''type'', JStr ''CLIPTextEncode''),
                                   (''widgets_values'', JArr [JStr ''up-pos''])],
                             JObj [(''id'', JInt 4), (''type'', JStr ''CLIPTextEncode''),
                                   (''widgets_values'', JArr [JStr ''up-neg''])]]),
           (''links'', JArr [JArr [JInt 1, JInt 2, JInt 0, JInt 1, JInt 0, JStr ''WANVIDEOTEXTEMBEDS''],
                             JArr [JInt 2, JInt 3, JInt 0, JInt 2, JInt 0, JStr ''CONDITIONING''],
                             JArr [JInt 3, JInt 4, JInt 0, JInt 2, JInt 1, JStr ''CONDITIONING'']])]"

text \<open>The same graph with a wired pos/neg sampler beside it.\<close>

definition doc_bridge_and_sampler :: json where
  "doc_bridge_and_sampler =
     JObj [(''nodes'', JArr [JObj [(''id'', JInt 1), (''type'', JStr ''WanVideoSampler''),
                                   (''inputs'', JArr [JObj [(''name'', JStr ''text_embeds'')]])],
                             JObj [(''id'', JInt 2), (''type'', JStr ''WanVideoTextEmbedBridge''),
                                   (''inputs'', JArr [JObj [(''name'', JStr ''positive'')],
                                                      JObj [(''name'', JStr ''negative'')]])],
                             JObj [(''id'', JInt 3), (''type'', JStr ''CLIPTextEncode''),
                                   (''widgets_values'', JArr [JStr ''up-pos''])],
                             JObj [(''id'', JInt 4), (''type'', JStr ''CLIPTextEncode''),
                                   (''widgets_values'', JArr [JStr ''up-neg''])],
                             JObj [(''id'', JInt 5), (''type'', JStr ''KSampler''),
                                   (''inputs'', JArr [JObj [(''name'', JStr ''positive'')],
                                                      JObj [(''name'', JStr ''negative'')]])],
                             JObj [(''id'', JInt 6), (''type'', JStr ''CLIPTextEncode''),
                                   (''widgets_values'', JArr [JStr ''other-pos''])],
                             JObj [(''id'', JInt 7), (''type'', JStr ''CLIPTextEncode''),
                                   (''widgets_values'', JArr [JStr ''other-neg''])]]),
           (''links'', JArr [JArr [JInt 1, JInt 2, JInt 0, JInt 1, JInt 0, JStr ''WANVIDEOTEXTEMBEDS''],
                             JArr [JInt 2, JInt 3, JInt 0, JInt 2, JInt 0, JStr ''CONDITIONING''],
                             JArr [JInt 3, JInt 4, JInt 0, JInt 2, JInt 1, JStr ''CONDITIONING''],
                             JArr [JInt 4, JInt 6, JInt 0, JInt 5, JInt 0, JStr ''CONDITIONING''],
                             JArr [JInt 5, JInt 7, JInt 0, JInt 5, JInt 1, JStr ''CONDITIONING'']])]"

text \<open>
  What the first loop of \<^verbatim>\<open>_reaches_output\<close> needs of a link entry: fields 1 and 3, both
  hashable (field 3 is hashed when the traversal meets it).
\<close>

definition forward_link_ok :: "json \<Rightarrow> bool" where
  "forward_link_ok L =
     (case L of
        JArr xs \<Rightarrow> 4 \<le> length xs \<and> hashable (xs ! 1) \<and> hashable (xs ! 3)
      | JStr s \<Rightarrow> 4 \<le> length s
      | _ \<Rightarrow> False)"

text \<open>Every stored node has a hashable type tag (a missing one is \<^verbatim>\<open>None\<close>).\<close>

definition types_hashable :: "UIGraph \<Rightarrow> bool" where
  "types_hashable g =
     (\<forall>n \<in> snd ` set (nodes g). case py_get n ''type'' of Inl e \<Rightarrow> False | Inr t \<Rightarrow> hashable t)"

section \<open>Basic facts\<close>

text \<open>The defining equations that running the resolver on a given document unfolds.\<close>

named_theorems run

declare UIGraph_init_def [run] link_entry_def [run] src_for_def [run] py_get_def [run]
  py_or_def [run] safe_get_def [run] norm_text_def [run] strip_def [run] is_space_def [run]
  KNOWN_POSNEG_SAMPLERS_def [run] KNOWN_TEXT_EMBEDS_SAMPLERS_def [run] OUTPUT_TYPES_def [run]
  ENCODER_READERS_def [run] nodes_get_def [run] find_nodes_def [run] first_node_def [run]
  input_index_def [run] input_names_def [run] read_text_from_node_def [run]
  reaches_output_def [run] posneg_candidate_def [run] text_embeds_candidate_def [run]
  select_candidate_def [run] sampler_with_posneg_def [run] sampler_with_text_embeds_def [run]
  src_of_input_def [run] posneg_stage_def [run] embeds_stage_def [run] wte_stage_def [run]
  embeds_then_wte_def [run] ui_path_def [run] has_class_def [run] api_path_def [run]
  extract_prompts_def [run]

lemma bnd_simps [simp]: "bnd (Inl e) f = Inl e" "bnd (Inr x) f = f x"
  by (simp_all add: bnd_def)

lemma bnd_eq_Inr: "bnd m f = Inr y \<longleftrightarrow> (\<exists>x. m = Inr x \<and> f x = Inr y)"
  by (cases m) simp_all

lemma bnd_eq_Inl: "bnd m f = Inl e \<longleftrightarrow> m = Inl e \<or> (\<exists>x. m = Inr x \<and> f x = Inl e)"
  by (cases m) simp_all

lemma link_entry_source: "link_entry L = Inr (k, src) \<Longrightarrow> link_source L = src"
  by (auto simp: link_entry_def link_source_def bnd_eq_Inr)

lemma targets_iff: "targets k L \<longleftrightarrow> link_entry L = Inr (k, link_source L)"
proof (cases "link_entry L")
  case (Inl e)
  then show ?thesis by (simp add: targets_def)
next
  case (Inr p)
  obtain k' src where p: "p = (k', src)" by (cases p)
  with Inr have "link_source L = src" by (simp add: link_entry_source)
  with Inr p show ?thesis by (auto simp: targets_def)
qed


text \<open>What a successful \<^verbatim>\<open>__init__\<close> has built.\<close>

lemma UIGraph_init_Inr:
  assumes "UIGraph_init workflow = Inr g"
  obtains nv ns Ls where
    "py_get_default workflow ''nodes'' (JArr []) = Inr nv" "py_iter nv = Inr ns"
    "build_nodes ns [] = Inr (nodes g)"
    "py_get_default workflow ''links'' (JArr []) = Inr (links g)" "py_iter (links g) = Inr Ls"
    "in_edge g = build_in_edge Ls Map.empty"
  using assms unfolding UIGraph_init_def by (auto simp: bnd_eq_Inr)

lemma dict_key_Inr_iff: "(\<exists>k. dict_key v = Inr k) \<longleftrightarrow> hashable v"
  by (cases v) (simp_all add: hashable_def)








text \<open>On a link as the editor writes it the destination key is the pair of its two integers.\<close>

lemma editor_link_destination:
  "has_destination (KNum (of_int d), KNum (of_int s))
      (JArr [JInt link_id, JInt src, JInt src_slot, JInt dst, JInt dst_slot, JStr data_type])
     \<longleftrightarrow> dst = d \<and> dst_slot = s"
  by (simp add: has_destination_def readable_link_def link_field_def hashable_def)

section \<open>The reverse-edge index\<close>




section \<open>Values returned without normalisation\<close>

text \<open>
  C3. The claim: on every resolution path a returned positive or negative value is never
  an empty or whitespace-only string. The fallback (c) reads the two widgets of the
  encoder with \<^verbatim>\<open>_safe_get\<close> alone, where the reader of the same node type in
  \<^verbatim>\<open>ENCODER_READERS\<close> passes them through \<^verbatim>\<open>_norm\<close>: for an encoder whose widgets are three
  blanks and the empty string, \<^verbatim>\<open>extract_prompts\<close> returns exactly these two strings.
\<close>

theorem fallback_returns_blank_strings:
  "extract_prompts doc_blank_encoder = Inr (JStr ''   '', JStr '''')"
  by (simp add: run doc_blank_encoder_def)

text \<open>
  C9. The claim: in the API shape the two input fields of the dual-prompt encoder are
  returned after normalisation. They are returned as they stand: three blanks and the
  empty string come back unchanged, where normalisation gives \<^verbatim>\<open>None\<close> for both.
\<close>

theorem api_returns_blank_strings:
  "extract_prompts doc_blank_api = Inr (JStr ''   '', JStr '''')
     \<and> norm_text (JStr ''   '') = Inr JNull \<and> norm_text (JStr '''') = Inr JNull"
  by (simp add: run doc_blank_api_def)

section \<open>The reachability check on a malformed link\<close>

text \<open>
  C6. The claim: the reachability check is total, and returns false, not an error, when
  it finds no output node. Its first loop reads \<^verbatim>\<open>L[1]\<close> and \<^verbatim>\<open>L[3]\<close> of every link
  entry outside any \<^verbatim>\<open>try\<close>, so a link entry that \<^verbatim>\<open>__init__\<close> has skipped makes the check
  raise: with the one-element entry of \<open>doc_short_link\<close> the graph is built, the check
  from the sampler raises IndexError, and so does \<^verbatim>\<open>extract_prompts\<close>.
\<close>

theorem reaches_output_raises_on_short_link:
  "\<exists>g. UIGraph_init doc_short_link = Inr g
     \<and> reaches_output g (JInt 1) 200 = Inl IndexError
     \<and> extract_prompts doc_short_link = Inl IndexError"
  by (simp add: run doc_short_link_def)

section \<open>The reachability check on readable links\<close>

text \<open>
  Where the check does not raise: every link entry has fields 1 and 3 and they are
  hashable, and every stored node has a hashable type. Then the check returns a truth
  value for every hashable start id and every bound; the recursion of \<open>bfs\<close> ends by
  its measure, whether or not the links form cycles.
\<close>

lemma out_by_src_total:
  assumes "\<forall>L \<in> set Ls. forward_link_ok L"
    and "\<forall>k. \<forall>d \<in> set (case m k of None \<Rightarrow> [] | Some ds \<Rightarrow> ds). hashable d"
  shows "\<exists>out. out_by_src Ls m = Inr out \<and> (\<forall>k. \<forall>d \<in> set (case out k of None \<Rightarrow> [] | Some ds \<Rightarrow> ds). hashable d)"
  using assms
proof (induction Ls arbitrary: m)
  case Nil
  then show ?case by simp
next
  case (Cons L Ls)
  from Cons.prems(1) have ok: "forward_link_ok L" by simp
  then obtain src dst k where s: "getitem_idx L 1 = Inr src" and k: "dict_key src = Inr k"
    and d: "getitem_idx L 3 = Inr dst" and hd: "hashable dst"
  proof (cases L)
    case (JArr xs)
    with ok have "1 < length xs" "3 < length xs" "hashable (xs ! 1)" "hashable (xs ! 3)"
      by (simp_all add: forward_link_ok_def)
    moreover from this obtain k where "dict_key (xs ! 1) = Inr k"
      using dict_key_Inr_iff [of "xs ! 1"] by blast
    ultimately show ?thesis using JArr that by simp
  next
    case (JStr s)
    with ok have "1 < length s" "3 < length s" by (simp_all add: forward_link_ok_def)
    then show ?thesis using JStr that [of "JStr [s ! 1]" "KStr [s ! 1]" "JStr [s ! 3]"]
      by (simp add: hashable_def)
  qed (simp_all add: forward_link_ok_def)
  let ?m = "m(k \<mapsto> (case m k of None \<Rightarrow> [] | Some ds \<Rightarrow> ds) @ [dst])"
  have "\<forall>k'. \<forall>d \<in> set (case ?m k' of None \<Rightarrow> [] | Some ds \<Rightarrow> ds). hashable d"
    using Cons.prems(2) hd by auto
  moreover from Cons.prems(1) have "\<forall>L \<in> set Ls. forward_link_ok L" by simp
  ultimately have "\<exists>out. out_by_src Ls ?m = Inr out
      \<and> (\<forall>k. \<forall>d \<in> set (case out k of None \<Rightarrow> [] | Some ds \<Rightarrow> ds). hashable d)"
    by (rule Cons.IH [rotated])
  with s k d show ?case by simp
qed

lemma node_type_hashable:
  assumes "types_hashable g"
  obtains t tk where "py_get (py_or (nodes_get g k) (JObj [])) ''type'' = Inr t" "dict_key t = Inr tk"
proof (cases "map_of (nodes g) k")
  case None
  then have "py_get (py_or (nodes_get g k) (JObj [])) ''type'' = Inr JNull"
    by (simp add: nodes_get_def py_or_def py_get_def)
  then show ?thesis using that [of JNull KNone] by simp
next
  case (Some n)
  then have "n \<in> snd ` set (nodes g)" by (auto dest: map_of_SomeD intro: rev_image_eqI)
  with assms have "case py_get n ''type'' of Inl e \<Rightarrow> False | Inr t \<Rightarrow> hashable t"
    unfolding types_hashable_def by blast
  then obtain t where t: "py_get n ''type'' = Inr t" and h: "hashable t"
    by (cases "py_get n ''type''") simp_all
  from h obtain tk where tk: "dict_key t = Inr tk" using dict_key_Inr_iff [of t] by blast
  show ?thesis
  proof (cases "truthy n")
    case True
    with Some t tk that show ?thesis by (simp add: nodes_get_def py_or_def)
  next
    case False
    with Some have "py_get (py_or (nodes_get g k) (JObj [])) ''type'' = Inr JNull"
      by (simp add: nodes_get_def py_or_def py_get_def)
    then show ?thesis using that [of JNull KNone] by simp
  qed
qed

lemma scan_dsts_total:
  assumes "types_hashable g" and "\<forall>d \<in> set ds. hashable d"
  shows "\<exists>r. scan_dsts g ds seen nxt = Inr r"
  using assms(2)
proof (induction ds arbitrary: seen nxt)
  case Nil
  show ?case by simp
next
  case (Cons d ds)
  then obtain k where k: "dict_key d = Inr k" using dict_key_Inr_iff [of d] by auto
  from assms(1) obtain t tk where t: "py_get (py_or (nodes_get g k) (JObj [])) ''type'' = Inr t"
    and tk: "dict_key t = Inr tk"
    by (rule node_type_hashable)
  from Cons have ih: "\<exists>r. scan_dsts g ds s n = Inr r" for s n by simp
  from k t tk ih [of seen nxt] ih [of "insert k seen" "nxt @ [k]"] show ?case by simp
qed

lemma scan_layer_total:
  assumes "types_hashable g" and "\<forall>k. \<forall>d \<in> set (case out k of None \<Rightarrow> [] | Some ds \<Rightarrow> ds). hashable d"
  shows "\<exists>r. scan_layer g out q seen nxt = Inr r"
proof (induction q arbitrary: seen nxt)
  case Nil
  show ?case by simp
next
  case (Cons nid q)
  have "\<forall>d \<in> set (case out nid of None \<Rightarrow> [] | Some ds \<Rightarrow> ds). hashable d"
    using assms(2) by blast
  with assms(1) obtain r where r: "scan_dsts g (case out nid of None \<Rightarrow> [] | Some ds \<Rightarrow> ds) seen nxt = Inr r"
    using scan_dsts_total by blast
  show ?case
  proof (cases r)
    case ReturnTrue
    with r show ?thesis by simp
  next
    case (Go seen' nxt')
    with r Cons [of seen' nxt'] show ?thesis by simp
  qed
qed

lemma bfs_total:
  assumes "types_hashable g"
    and "\<forall>k. \<forall>d \<in> set (case out k of None \<Rightarrow> [] | Some ds \<Rightarrow> ds). hashable d"
  shows "\<exists>b. bfs g out q seen hops max_hops = Inr b"
  using assms
proof (induction g out q seen hops max_hops rule: bfs.induct)
  case (1 g out q seen hops max_hops)
  show ?case
  proof (cases "q \<noteq> [] \<and> hops < max_hops")
    case False
    then show ?thesis by (subst bfs.simps) auto
  next
    case True
    from scan_layer_total [OF "1.prems", of q seen "[]"] obtain r
      where r: "scan_layer g out q seen [] = Inr r" by blast
    show ?thesis
    proof (cases r)
      case ReturnTrue
      with r True show ?thesis by (subst bfs.simps) auto
    next
      case (Go seen' nxt)
      from "1.IH" [OF True r Go "1.prems"]
      have "\<exists>b. bfs g out nxt seen' (hops + 1) max_hops = Inr b" .
      with r True Go show ?thesis by (subst bfs.simps) auto
    qed
  qed
qed

lemma reaches_output_total:
  assumes "py_iter (links g) = Inr Ls" and "\<forall>L \<in> set Ls. forward_link_ok L"
    and "types_hashable g" and "hashable start_id"
  shows "\<exists>b. reaches_output g start_id max_hops = Inr b"
proof -
  from out_by_src_total [OF assms(2), of Map.empty] obtain out
    where out: "out_by_src Ls Map.empty = Inr out"
      and h: "\<forall>k. \<forall>d \<in> set (case out k of None \<Rightarrow> [] | Some ds \<Rightarrow> ds). hashable d"
    by auto
  from assms(4) obtain s where s: "dict_key start_id = Inr s"
    using dict_key_Inr_iff [of start_id] by blast
  from bfs_total [OF assms(3) h, of "[s]" "{s}" 0 max_hops] assms(1) out s
  show ?thesis by (simp add: reaches_output_def)
qed

lemma bfs_stops:
  "bfs g out [] seen hops max_hops = Inr False"
  "bfs g out q seen max_hops max_hops = Inr False"
  by (subst bfs.simps, simp)+

section \<open>Choosing among several samplers\<close>

lemma filter_err_Inr:
  "filter_err p xs = Inr ys \<Longrightarrow>
     ys = filter (\<lambda>x. p x = Inr True) xs \<and> (\<forall>x \<in> set xs. \<exists>b. p x = Inr b)"
proof (induction xs arbitrary: ys)
  case Nil
  then show ?case by simp
next
  case (Cons x xs)
  from Cons.prems obtain b zs where b: "p x = Inr b" and zs: "filter_err p xs = Inr zs"
    and ys: "ys = (if b then x # zs else zs)"
    by (auto simp: bnd_eq_Inr)
  from Cons.IH [OF zs] b ys show ?case by auto
qed

lemma first_reaching_find:
  "\<forall>c \<in> set cs. \<exists>b. candidate_reaches g c = Inr b \<Longrightarrow>
     first_reaching g cs = Inr (find (\<lambda>c. candidate_reaches g c = Inr True) cs)"
proof (induction cs)
  case Nil
  show ?case by simp
next
  case (Cons c cs)
  then obtain b where b: "candidate_reaches g c = Inr b" by auto
  then obtain i where i: "getitem_str c ''id'' = Inr i" and r: "reaches_output g i 200 = Inr b"
    by (auto simp: candidate_reaches_def bnd_eq_Inr)
  show ?case
  proof (cases b)
    case True
    with b i r show ?thesis by simp
  next
    case False
    with b i r Cons show ?thesis by simp
  qed
qed

lemma find_hd_filter: "find P xs = (case filter P xs of [] \<Rightarrow> None | x # _ \<Rightarrow> Some x)"
  by (induction xs) auto

text \<open>
  The selection relative to the results of the reachability checks, on a graph where the
  candidate scan and every check return. Among the qualifying pos/neg samplers \<open>cs\<close>,
  which stand in the iteration order of the node store: if the check is true of some
  candidate, the sampler selected is the first such one, whether or not it is the first
  candidate; if it is false of every candidate, the sampler selected is the first
  candidate (\<^verbatim>\<open>None\<close> when there is no candidate).
\<close>

lemma first_reaching_candidate_is_selected:
  assumes "UIGraph_init workflow = Inr g"
    and "filter_err (posneg_candidate g) (map snd (nodes g)) = Inr cs"
    and "\<forall>c \<in> set cs. \<exists>b. candidate_reaches g c = Inr b"
  shows "cs = filter (\<lambda>n. posneg_candidate g n = Inr True) (map snd (nodes g))
    \<and> (\<exists>s. sampler_with_posneg g = Inr s
        \<and> ((\<exists>c \<in> set cs. candidate_reaches g c = Inr True) \<longrightarrow>
              s \<in> set cs \<and> candidate_reaches g s = Inr True
              \<and> s = hd (filter (\<lambda>c. candidate_reaches g c = Inr True) cs))
        \<and> ((\<forall>c \<in> set cs. candidate_reaches g c = Inr False) \<longrightarrow>
              s = (case cs of [] \<Rightarrow> JNull | c # _ \<Rightarrow> c)))"
proof -
  let ?R = "\<lambda>c. candidate_reaches g c = Inr True"
  define s where "s = (case find ?R cs of Some c \<Rightarrow> c | None \<Rightarrow> (case cs of [] \<Rightarrow> JNull | c # _ \<Rightarrow> c))"
  have order: "cs = filter (\<lambda>n. posneg_candidate g n = Inr True) (map snd (nodes g))"
    using filter_err_Inr [OF assms(2)] by simp
  have sel: "sampler_with_posneg g = Inr s"
    using assms(2) first_reaching_find [OF assms(3)]
    by (simp add: sampler_with_posneg_def select_candidate_def s_def)
  have reach: "s \<in> set cs \<and> ?R s \<and> s = hd (filter ?R cs)" if "\<exists>c \<in> set cs. ?R c"
  proof -
    from that have ne: "filter ?R cs \<noteq> []" by (simp add: filter_empty_conv)
    then obtain x xs where x: "filter ?R cs = x # xs" by (cases "filter ?R cs") auto
    then have "s = x" by (simp add: s_def find_hd_filter)
    moreover have "x \<in> set (filter ?R cs)" using x by simp
    then have "x \<in> set cs \<and> ?R x" by simp
    ultimately show ?thesis using x by simp
  qed
  have none: "s = (case cs of [] \<Rightarrow> JNull | c # _ \<Rightarrow> c)"
    if "\<forall>c \<in> set cs. candidate_reaches g c = Inr False"
  proof -
    from that have "filter ?R cs = []" by (simp add: filter_empty_conv)
    then show ?thesis by (simp add: s_def find_hd_filter)
  qed
  from order sel reach none show ?thesis by blast
qed

text \<open>
  On \<open>doc_two_samplers\<close> both samplers qualify, only the second one reaches the
  \<^verbatim>\<open>SaveImage\<close> node, and the second one is selected.
\<close>

lemma second_sampler_is_selected:
  "\<exists>g s1 s2. UIGraph_init doc_two_samplers = Inr g
     \<and> filter_err (posneg_candidate g) (map snd (nodes g)) = Inr [s1, s2]
     \<and> candidate_reaches g s1 = Inr False \<and> candidate_reaches g s2 = Inr True
     \<and> getitem_str s2 ''id'' = Inr (JInt 2)
     \<and> sampler_with_posneg g = Inr s2"
proof -
  obtain g where g: "UIGraph_init doc_two_samplers = Inr g"
    by (simp add: run doc_two_samplers_def)
  define s1 where "s1 = JObj [(''id'', JInt 1), (''type'', JStr ''KSampler''),
    (''inputs'', JArr [JObj [(''name'', JStr ''positive'')], JObj [(''name'', JStr ''negative'')]])]"
  define s2 where "s2 = JObj [(''id'', JInt 2), (''type'', JStr ''KSampler''),
    (''inputs'', JArr [JObj [(''name'', JStr ''positive'')], JObj [(''name'', JStr ''negative'')]])]"
  have cs: "filter_err (posneg_candidate g) (map snd (nodes g)) = Inr [s1, s2]"
    using g by (auto simp: run doc_two_samplers_def s1_def s2_def)
  have r1: "candidate_reaches g s1 = Inr False" and r2: "candidate_reaches g s2 = Inr True"
    using g by (auto simp: run candidate_reaches_def doc_two_samplers_def s1_def s2_def)
  have all: "\<forall>c \<in> set [s1, s2]. \<exists>b. candidate_reaches g c = Inr b"
    using r1 r2 by auto
  have f: "filter (\<lambda>c. candidate_reaches g c = Inr True) [s1, s2] = [s2]"
    using r1 r2 by simp
  from first_reaching_candidate_is_selected [OF g cs all] obtain s where
    "sampler_with_posneg g = Inr s" and
    "(\<exists>c \<in> set [s1, s2]. candidate_reaches g c = Inr True) \<longrightarrow>
       s = hd (filter (\<lambda>c. candidate_reaches g c = Inr True) [s1, s2])"
    by blast
  with r2 f have "sampler_with_posneg g = Inr s2" by simp
  moreover have "getitem_str s2 ''id'' = Inr (JInt 2)" by (simp add: s2_def)
  ultimately show ?thesis using g cs r1 r2 by blast
qed

text \<open>
  On \<open>doc_dead_end_sampler\<close> both samplers have a successor: the first one leads to a
  node that is no output node and has no successor, the second one reaches the
  \<^verbatim>\<open>SaveImage\<close> node in two hops, and with a bound of one hop it does not. The second
  sampler is selected, and its texts are the result.
\<close>

lemma dead_end_sampler_is_passed_over:
  "\<exists>g. UIGraph_init doc_dead_end_sampler = Inr g
     \<and> reaches_output g (JInt 1) 200 = Inr False
     \<and> reaches_output g (JInt 2) 200 = Inr True
     \<and> reaches_output g (JInt 2) 1 = Inr False
     \<and> (\<exists>s. sampler_with_posneg g = Inr s \<and> getitem_str s ''id'' = Inr (JInt 2))
     \<and> extract_prompts doc_dead_end_sampler = Inr (JStr ''good'', JStr ''bad'')"
proof -
  obtain g where g: "UIGraph_init doc_dead_end_sampler = Inr g"
    by (simp add: run doc_dead_end_sampler_def)
  have r1: "reaches_output g (JInt 1) 200 = Inr False"
    using g by (auto simp: run doc_dead_end_sampler_def)
  have r2: "reaches_output g (JInt 2) 200 = Inr True"
    using g by (auto simp: run doc_dead_end_sampler_def)
  have r3: "reaches_output g (JInt 2) 1 = Inr False"
    using g by (auto simp: run doc_dead_end_sampler_def)
  have s: "\<exists>s. sampler_with_posneg g = Inr s \<and> getitem_str s ''id'' = Inr (JInt 2)"
    using g by (auto simp: run doc_dead_end_sampler_def)
  have e: "extract_prompts doc_dead_end_sampler = Inr (JStr ''good'', JStr ''bad'')"
    by (simp add: run doc_dead_end_sampler_def)
  from g r1 r2 r3 s e show ?thesis by blast
qed

text \<open>
  C4. The claim says that among several qualifying pos/neg samplers the resolver selects
  one that reaches an output node, and the first one when none does.
  \<open>doc_two_samplers_short_link\<close> is \<open>doc_two_samplers\<close> with a link entry of one field
  appended, which \<^verbatim>\<open>__init__\<close> passes over: both samplers still qualify and the second
  one is still wired to the \<^verbatim>\<open>SaveImage\<close> node. The reachability check of the first
  candidate reads fields 1 and 3 of every link entry and raises \<^verbatim>\<open>IndexError\<close>; the
  selection raises with it, and so does \<open>extract_prompts\<close>: no sampler is selected.
\<close>

theorem tie_break_raises_on_short_link:
  "\<exists>g s1 s2. UIGraph_init doc_two_samplers_short_link = Inr g
     \<and> filter_err (posneg_candidate g) (map snd (nodes g)) = Inr [s1, s2]
     \<and> getitem_str s1 ''id'' = Inr (JInt 1) \<and> getitem_str s2 ''id'' = Inr (JInt 2)
     \<and> reaches_output g (JInt 1) 200 = Inl IndexError
     \<and> sampler_with_posneg g = Inl IndexError
     \<and> extract_prompts doc_two_samplers_short_link = Inl IndexError"
proof -
  obtain g where g: "UIGraph_init doc_two_samplers_short_link = Inr g"
    by (simp add: run doc_two_samplers_short_link_def)
  define s1 where "s1 = JObj [(''id'', JInt 1), (''type'', JStr ''KSampler''),
    (''inputs'', JArr [JObj [(''name'', JStr ''positive'')], JObj [(''name'', JStr ''negative'')]])]"
  define s2 where "s2 = JObj [(''id'', JInt 2), (''type'', JStr ''KSampler''),
    (''inputs'', JArr [JObj [(''name'', JStr ''positive'')], JObj [(''name'', JStr ''negative'')]])]"
  have cs: "filter_err (posneg_candidate g) (map snd (nodes g)) = Inr [s1, s2]"
    using g by (auto simp: run doc_two_samplers_short_link_def s1_def s2_def)
  have i1: "getitem_str s1 ''id'' = Inr (JInt 1)" and i2: "getitem_str s2 ''id'' = Inr (JInt 2)"
    by (simp_all add: s1_def s2_def)
  have r: "reaches_output g (JInt 1) 200 = Inl IndexError"
    using g by (auto simp: run doc_two_samplers_short_link_def)
  have s: "sampler_with_posneg g = Inl IndexError"
    using cs i1 r by (simp add: sampler_with_posneg_def select_candidate_def)
  have e: "extract_prompts doc_two_samplers_short_link = Inl IndexError"
    by (simp add: run doc_two_samplers_short_link_def)
  from g cs i1 i2 r s e show ?thesis by blast
qed

section \<open>The order of the strategies\<close>

text \<open>A text that \<^verbatim>\<open>_norm\<close> returns is \<^verbatim>\<open>None\<close> or a non-empty string.\<close>

lemma norm_text_result:
  assumes "norm_text v = Inr r"
  shows "r = JNull \<or> (\<exists>t. r = JStr t \<and> t \<noteq> [])"
proof (cases "py_or v (JStr [])")
  case (JStr t)
  with assms show ?thesis by (auto simp: norm_text_def py_or_def split: if_splits)
qed (use assms in \<open>simp_all add: norm_text_def\<close>)

lemma read_text_result:
  assumes "read_text_from_node g nid which = Inr r"
  shows "r = JNull \<or> (\<exists>t. r = JStr t \<and> t \<noteq> [])"
proof (cases "nid = JNull")
  case True
  with assms show ?thesis by (simp add: read_text_from_node_def)
next
  case False
  with assms obtain n widgets tk where
    r: "(case ENCODER_READERS tk of Some reader \<Rightarrow> reader n widgets which | None \<Rightarrow> Inr JNull) = Inr r"
    by (auto simp: read_text_from_node_def bnd_eq_Inr Let_def)
  show ?thesis
  proof (cases "ENCODER_READERS tk")
    case None
    with r show ?thesis by simp
  next
    case (Some reader)
    then obtain v where "reader n widgets which = norm_text v"
      by (auto simp: ENCODER_READERS_def split: if_splits)
    with r Some show ?thesis by (simp add: norm_text_result)
  qed
qed

lemma read_text_truthy:
  "read_text_from_node g nid which = Inr r \<Longrightarrow> truthy r \<longleftrightarrow> r \<noteq> JNull"
  by (drule read_text_result) auto

lemma posneg_stage_truthy:
  assumes "posneg_stage g = Inr (Some (p, n))"
  shows "(truthy p \<longleftrightarrow> p \<noteq> JNull) \<and> (truthy n \<longleftrightarrow> n \<noteq> JNull)"
proof -
  from assms obtain ps ns where
    "read_text_from_node g ps (JStr ''positive'') = Inr p"
    "read_text_from_node g ns (JStr ''negative'') = Inr n"
    by (auto simp: posneg_stage_def bnd_eq_Inr split: if_splits)
  then show ?thesis by (simp add: read_text_truthy)
qed

lemma embeds_stage_truthy:
  assumes "embeds_stage g = Inr (Bridge p n)"
  shows "(truthy p \<longleftrightarrow> p \<noteq> JNull) \<and> (truthy n \<longleftrightarrow> n \<noteq> JNull)"
proof -
  from assms obtain ps ns where
    "read_text_from_node g ps (JStr ''positive'') = Inr p"
    "read_text_from_node g ns (JStr ''negative'') = Inr n"
    by (auto simp: embeds_stage_def bnd_eq_Inr Let_def split: if_splits)
  then show ?thesis by (simp add: read_text_truthy)
qed

lemma extract_prompts_editor:
  "editor_shape workflow \<Longrightarrow> extract_prompts workflow = ui_path workflow"
  by (cases workflow) (simp_all add: editor_shape_def extract_prompts_def)

lemma ui_path_after_posneg:
  assumes "UIGraph_init workflow = Inr g" and "posneg_yields_nothing g"
  shows "ui_path workflow = embeds_then_wte g"
  using assms by (auto simp: ui_path_def posneg_yields_nothing_def)

text \<open>
  The control flow of \<open>extract_prompts\<close> on an editor-shape document, in terms of what
  its three stages return: strategy (a), and strategy (b) when the sampler's source is a
  bridge, return their pair exactly when one of its two texts is not absent; the encoder
  branch of strategy (b) returns at once; strategy (c) is reached when (a) and (b) have
  nothing to return.
\<close>

lemma extract_prompts_stage_order:
  assumes "editor_shape workflow" and "UIGraph_init workflow = Inr g"
  shows "(\<forall>p n. posneg_stage g = Inr (Some (p, n)) \<and> (p \<noteq> JNull \<or> n \<noteq> JNull) \<longrightarrow>
            extract_prompts workflow = Inr (p, n))
    \<and> (posneg_yields_nothing g \<longrightarrow>
         (\<forall>p n. embeds_stage g = Inr (Bridge p n) \<and> (p \<noteq> JNull \<or> n \<noteq> JNull) \<longrightarrow>
            extract_prompts workflow = Inr (p, n))
       \<and> (\<forall>p n. embeds_stage g = Inr (Encoder p n) \<longrightarrow> extract_prompts workflow = Inr (p, n))
       \<and> (embeds_yields_nothing g \<longrightarrow> extract_prompts workflow = wte_stage g))
    \<and> (\<forall>r. extract_prompts workflow = Inr r \<longrightarrow>
         (\<exists>p n. posneg_stage g = Inr (Some (p, n)) \<and> (p \<noteq> JNull \<or> n \<noteq> JNull) \<and> r = (p, n))
       \<or> posneg_yields_nothing g
          \<and> ((\<exists>p n. embeds_stage g = Inr (Bridge p n) \<and> (p \<noteq> JNull \<or> n \<noteq> JNull) \<and> r = (p, n))
             \<or> (\<exists>p n. embeds_stage g = Inr (Encoder p n) \<and> r = (p, n))
             \<or> embeds_yields_nothing g \<and> wte_stage g = Inr r))"
proof -
  note ex = extract_prompts_editor [OF assms(1)]
  have a: "extract_prompts workflow = Inr (p, n)"
    if "posneg_stage g = Inr (Some (p, n))" "p \<noteq> JNull \<or> n \<noteq> JNull" for p n
    using that posneg_stage_truthy [OF that(1)] assms(2) by (auto simp: ex ui_path_def)
  have rest: "extract_prompts workflow = embeds_then_wte g" if "posneg_yields_nothing g"
    using ui_path_after_posneg [OF assms(2) that] by (simp add: ex)
  have b1: "embeds_then_wte g = Inr (p, n)"
    if "embeds_stage g = Inr (Bridge p n)" "p \<noteq> JNull \<or> n \<noteq> JNull" for p n
    using that embeds_stage_truthy [OF that(1)] by (auto simp: embeds_then_wte_def)
  have b2: "embeds_then_wte g = Inr (p, n)" if "embeds_stage g = Inr (Encoder p n)" for p n
    using that by (simp add: embeds_then_wte_def)
  have c: "embeds_then_wte g = wte_stage g" if "embeds_yields_nothing g"
    using that by (auto simp: embeds_then_wte_def embeds_yields_nothing_def)
  have only: "(\<exists>p n. posneg_stage g = Inr (Some (p, n)) \<and> (p \<noteq> JNull \<or> n \<noteq> JNull) \<and> r = (p, n))
       \<or> posneg_yields_nothing g
          \<and> ((\<exists>p n. embeds_stage g = Inr (Bridge p n) \<and> (p \<noteq> JNull \<or> n \<noteq> JNull) \<and> r = (p, n))
             \<or> (\<exists>p n. embeds_stage g = Inr (Encoder p n) \<and> r = (p, n))
             \<or> embeds_yields_nothing g \<and> wte_stage g = Inr r)"
    if r: "extract_prompts workflow = Inr r" for r
  proof -
    from r obtain sa where sa: "posneg_stage g = Inr sa"
      using assms(2) by (auto simp: ex ui_path_def bnd_eq_Inr)
    show ?thesis
    proof (cases "posneg_yields_nothing g")
      case False
      with sa obtain p n where pn: "sa = Some (p, n)" "p \<noteq> JNull \<or> n \<noteq> JNull"
        by (cases sa) (auto simp: posneg_yields_nothing_def)
      with sa a [of p n] r show ?thesis by auto
    next
      case True
      with r have e: "embeds_then_wte g = Inr r" by (simp add: rest)
      then obtain sb where sb: "embeds_stage g = Inr sb"
        by (auto simp: embeds_then_wte_def bnd_eq_Inr)
      show ?thesis
      proof (cases sb)
        case NoSource
        with sb have "embeds_yields_nothing g" by (simp add: embeds_yields_nothing_def)
        with e c True show ?thesis by simp
      next
        case (Bridge p n)
        show ?thesis
        proof (cases "p = JNull \<and> n = JNull")
          case True
          with sb Bridge have "embeds_yields_nothing g" by (simp add: embeds_yields_nothing_def)
          with e c \<open>posneg_yields_nothing g\<close> show ?thesis by simp
        next
          case False
          with sb Bridge b1 [of p n] e \<open>posneg_yields_nothing g\<close> show ?thesis by auto
        qed
      next
        case (Encoder p n)
        with sb b2 [of p n] e True show ?thesis by auto
      qed
    qed
  qed
  show ?thesis
  proof (intro conjI allI impI)
    fix p n
    assume "posneg_stage g = Inr (Some (p, n)) \<and> (p \<noteq> JNull \<or> n \<noteq> JNull)"
    then show "extract_prompts workflow = Inr (p, n)" using a by blast
  next
    fix p n
    assume "posneg_yields_nothing g"
      and "embeds_stage g = Inr (Bridge p n) \<and> (p \<noteq> JNull \<or> n \<noteq> JNull)"
    then show "extract_prompts workflow = Inr (p, n)" using rest b1 by simp
  next
    fix p n
    assume "posneg_yields_nothing g" and "embeds_stage g = Inr (Encoder p n)"
    then show "extract_prompts workflow = Inr (p, n)" using rest b2 by simp
  next
    assume "posneg_yields_nothing g" and "embeds_yields_nothing g"
    then show "extract_prompts workflow = wte_stage g" using rest c by simp
  next
    fix r
    assume "extract_prompts workflow = Inr r"
    then show "(\<exists>p n. posneg_stage g = Inr (Some (p, n)) \<and> (p \<noteq> JNull \<or> n \<noteq> JNull) \<and> r = (p, n))
       \<or> posneg_yields_nothing g
          \<and> ((\<exists>p n. embeds_stage g = Inr (Bridge p n) \<and> (p \<noteq> JNull \<or> n \<noteq> JNull) \<and> r = (p, n))
             \<or> (\<exists>p n. embeds_stage g = Inr (Encoder p n) \<and> r = (p, n))
             \<or> embeds_yields_nothing g \<and> wte_stage g = Inr r)"
      by (rule only)
  qed
qed

lemma extract_prompts_stage_order_examples:
  "(\<exists>g. UIGraph_init doc_two_samplers = Inr g
       \<and> posneg_stage g = Inr (Some (JStr ''good'', JStr ''bad'')))
   \<and> extract_prompts doc_two_samplers = Inr (JStr ''good'', JStr ''bad'')
   \<and> (\<exists>g. UIGraph_init doc_empty_wired_encoder = Inr g \<and> posneg_yields_nothing g
       \<and> embeds_stage g = Inr (Encoder JNull JNull))
   \<and> extract_prompts doc_empty_wired_encoder = Inr (JNull, JNull)"
proof -
  obtain g where g: "UIGraph_init doc_two_samplers = Inr g"
    by (simp add: run doc_two_samplers_def)
  have sh: "editor_shape doc_two_samplers"
    by (simp add: editor_shape_def doc_two_samplers_def)
  have a: "posneg_stage g = Inr (Some (JStr ''good'', JStr ''bad''))"
    using g by (auto simp: run doc_two_samplers_def)
  from extract_prompts_stage_order [OF sh g] a
  have r1: "extract_prompts doc_two_samplers = Inr (JStr ''good'', JStr ''bad'')"
    by simp
  obtain h where h: "UIGraph_init doc_empty_wired_encoder = Inr h"
    by (simp add: run doc_empty_wired_encoder_def)
  have sh': "editor_shape doc_empty_wired_encoder"
    by (simp add: editor_shape_def doc_empty_wired_encoder_def)
  have n: "posneg_yields_nothing h"
    using h by (auto simp: run posneg_yields_nothing_def doc_empty_wired_encoder_def)
  have b: "embeds_stage h = Inr (Encoder JNull JNull)"
    using h by (auto simp: run doc_empty_wired_encoder_def)
  from extract_prompts_stage_order [OF sh' h] n b
  have r2: "extract_prompts doc_empty_wired_encoder = Inr (JNull, JNull)"
    by simp
  from g a r1 h n b r2 show ?thesis by blast
qed

text \<open>
  C2. The claim says that a strategy's result is returned if and only if it holds a
  non-absent value, and that the next strategy is tried otherwise. On
  \<open>doc_empty_wired_encoder\<close> strategy (a) finds no sampler; strategy (b) finds the
  sampler wired to a dual-prompt encoder without widget values, reads two absent values
  and returns them at once, without the test \<^verbatim>\<open>if pos or neg\<close> that strategy (a) and
  the bridge branch make; strategy (c), which is not tried, would read both prompts from
  the first dual-prompt encoder of the graph.
\<close>

theorem encoder_branch_returns_absent_pair:
  "\<exists>g. UIGraph_init doc_empty_wired_encoder = Inr g
     \<and> posneg_stage g = Inr None
     \<and> embeds_stage g = Inr (Encoder JNull JNull)
     \<and> wte_stage g = Inr (JStr ''hello'', JStr ''bad'')
     \<and> extract_prompts doc_empty_wired_encoder = Inr (JNull, JNull)"
  by (simp add: run doc_empty_wired_encoder_def)

section \<open>Malformed entries\<close>











section \<open>The encoder text reader\<close>

lemma dict_set_values: "x \<in> set (dict_set acc k v) \<Longrightarrow> snd x = v \<or> x \<in> set acc"
  by (induction acc) (auto split: if_splits)

lemma build_nodes_values:
  "build_nodes ns acc = Inr r \<Longrightarrow> \<forall>n \<in> snd ` set acc. node_entry_ok n \<Longrightarrow>
     \<forall>n \<in> snd ` set r. node_entry_ok n"
proof (induction ns arbitrary: acc)
  case Nil
  then show ?case by simp
next
  case (Cons n ns)
  from Cons.prems(1) obtain i k where i: "getitem_str n ''id'' = Inr i" and k: "dict_key i = Inr k"
    and r: "build_nodes ns (dict_set acc k n) = Inr r"
    by (auto simp: bnd_eq_Inr)
  have "node_entry_ok n"
    using i k dict_key_Inr_iff [of i]
    by (cases n) (auto simp: node_entry_ok_def split: option.splits)
  with Cons.prems(2) have "\<forall>m \<in> snd ` set (dict_set acc k n). node_entry_ok m"
    using dict_set_values [of _ acc k n] by fastforce
  with r show ?case by (rule Cons.IH)
qed

text \<open>Every node that \<^verbatim>\<open>__init__\<close> has stored is a non-empty dict.\<close>

lemma stored_node_is_dict:
  assumes "UIGraph_init workflow = Inr g" and "map_of (nodes g) k = Some n"
  obtains d where "n = JObj d" "d \<noteq> []"
proof -
  from assms(1) obtain ns where "build_nodes ns [] = Inr (nodes g)"
    by (rule UIGraph_init_Inr)
  then have "\<forall>m \<in> snd ` set (nodes g). node_entry_ok m"
    by (rule build_nodes_values) simp
  moreover from assms(2) have "n \<in> snd ` set (nodes g)"
    by (auto dest: map_of_SomeD intro: rev_image_eqI)
  ultimately have "node_entry_ok n" by blast
  then have "\<exists>d. n = JObj d \<and> d \<noteq> []"
    by (cases n) (auto simp: node_entry_ok_def split: option.splits)
  then show ?thesis using that by blast
qed

lemma reader_is_norm:
  "ENCODER_READERS tk = Some reader \<Longrightarrow>
     reader n w which = norm_text (safe_get w (widget_position tk which))"
  by (auto simp: ENCODER_READERS_def widget_position_def split: if_splits)

lemma norm_text_Inr_iff: "(\<exists>r. norm_text v = Inr r) \<longleftrightarrow> text_or_falsy v"
  by (cases v) (auto simp: norm_text_def py_or_def text_or_falsy_def)

lemma norm_text_raises: "\<not> text_or_falsy v \<Longrightarrow> norm_text v = Inl AttributeError"
  by (cases v) (auto simp: norm_text_def py_or_def text_or_falsy_def)

lemma norm_text_null [simp]: "norm_text JNull = Inr JNull"
  by (simp add: norm_text_def py_or_def strip_def)

lemma read_text_missing:
  "dict_key nid = Inr k \<Longrightarrow> map_of (nodes g) k = None \<Longrightarrow>
     read_text_from_node g nid which = Inr JNull"
  by (simp add: read_text_from_node_def nodes_get_def py_or_def py_get_def ENCODER_READERS_def)

lemma read_text_stored:
  assumes "UIGraph_init workflow = Inr g" and "nid \<noteq> JNull" and "dict_key nid = Inr k"
    and "map_of (nodes g) k = Some n"
  obtains t w where "py_get n ''type'' = Inr t" "py_get n ''widgets_values'' = Inr w"
    "read_text_from_node g nid which =
       bnd (dict_key t) (\<lambda>tk. case ENCODER_READERS tk of
          Some reader \<Rightarrow> reader n w which | None \<Rightarrow> Inr JNull)"
proof -
  from assms(1,4) obtain d where d: "n = JObj d" "d \<noteq> []" by (rule stored_node_is_dict)
  then obtain t w where t: "py_get n ''type'' = Inr t" and w: "py_get n ''widgets_values'' = Inr w"
    by (simp add: py_get_def)
  from d have pn: "py_or (nodes_get g k) (JObj []) = n"
    using assms(4) by (simp add: nodes_get_def py_or_def)
  have "read_text_from_node g nid which =
       bnd (dict_key t) (\<lambda>tk. case ENCODER_READERS tk of
          Some reader \<Rightarrow> reader (py_or (nodes_get g k) (JObj [])) w which | None \<Rightarrow> Inr JNull)"
    using assms(2,3) t w by (simp add: read_text_from_node_def Let_def pn)
  then have "read_text_from_node g nid which =
       bnd (dict_key t) (\<lambda>tk. case ENCODER_READERS tk of
          Some reader \<Rightarrow> reader n w which | None \<Rightarrow> Inr JNull)"
    unfolding pn .
  with t w show ?thesis by (rule that)
qed

text \<open>
  C10, as amended. On a graph that \<^verbatim>\<open>__init__\<close> has built, \<^verbatim>\<open>read_text_from_node\<close> yields
  absent when the id is \<^verbatim>\<open>None\<close>, when the id is hashable and not in the node store, when
  the node's type has no extraction rule, when the node has no \<^verbatim>\<open>widgets_values\<close> or it is
  not a list, and when the rule's position is out of range. With a rule and a widget at
  its position, the reader returns an optional text exactly when that widget is a string
  or a falsy value, and raises AttributeError for any other widget. An unhashable id or
  node type raises TypeError.
\<close>

theorem read_text_absent_cases:
  assumes "UIGraph_init workflow = Inr g"
  shows "read_text_from_node g JNull which = Inr JNull
    \<and> (\<forall>nid e. dict_key nid = Inl e \<longrightarrow> read_text_from_node g nid which = Inl TypeError)
    \<and> (\<forall>nid k. dict_key nid = Inr k \<and> map_of (nodes g) k = None \<longrightarrow>
          read_text_from_node g nid which = Inr JNull)
    \<and> (\<forall>nid k n. nid \<noteq> JNull \<and> dict_key nid = Inr k \<and> map_of (nodes g) k = Some n \<longrightarrow>
          (\<exists>t w. py_get n ''type'' = Inr t \<and> py_get n ''widgets_values'' = Inr w
             \<and> (\<forall>e. dict_key t = Inl e \<longrightarrow> read_text_from_node g nid which = Inl TypeError)
             \<and> (\<forall>tk. dict_key t = Inr tk \<longrightarrow>
                  (ENCODER_READERS tk = None \<longrightarrow> read_text_from_node g nid which = Inr JNull)
                \<and> (ENCODER_READERS tk \<noteq> None \<longrightarrow>
                     ((\<forall>xs. w \<noteq> JArr xs) \<longrightarrow> read_text_from_node g nid which = Inr JNull)
                   \<and> (\<forall>xs. w = JArr xs \<and> length xs \<le> widget_position tk which \<longrightarrow>
                         read_text_from_node g nid which = Inr JNull)
                   \<and> (\<forall>xs. w = JArr xs \<and> widget_position tk which < length xs \<longrightarrow>
                         read_text_from_node g nid which = norm_text (xs ! widget_position tk which)
                       \<and> (text_or_falsy (xs ! widget_position tk which) \<longrightarrow>
                            (\<exists>r. read_text_from_node g nid which = Inr r))
                       \<and> (\<not> text_or_falsy (xs ! widget_position tk which) \<longrightarrow>
                            read_text_from_node g nid which = Inl AttributeError))))))"
proof (intro conjI allI impI)
  show "read_text_from_node g JNull which = Inr JNull"
    by (simp add: read_text_from_node_def)
next
  fix nid e
  assume "dict_key nid = Inl e"
  then show "read_text_from_node g nid which = Inl TypeError"
    by (cases nid) (simp_all add: read_text_from_node_def)
next
  fix nid k
  assume "dict_key nid = Inr k \<and> map_of (nodes g) k = None"
  then show "read_text_from_node g nid which = Inr JNull"
    by (simp add: read_text_missing)
next
  fix nid k n
  assume a: "nid \<noteq> JNull \<and> dict_key nid = Inr k \<and> map_of (nodes g) k = Some n"
  then obtain t w where t: "py_get n ''type'' = Inr t" and w: "py_get n ''widgets_values'' = Inr w"
    and rd: "read_text_from_node g nid which =
       bnd (dict_key t) (\<lambda>tk. case ENCODER_READERS tk of
          Some reader \<Rightarrow> reader n w which | None \<Rightarrow> Inr JNull)"
    using read_text_stored [OF assms, of nid k n which] by blast
  have unh: "read_text_from_node g nid which = Inl TypeError" if "dict_key t = Inl e" for e
    using that rd by (cases t) simp_all
  have nor: "read_text_from_node g nid which = Inr JNull"
    if "dict_key t = Inr tk" "ENCODER_READERS tk = None" for tk
    using that rd by simp
  have rule: "read_text_from_node g nid which = norm_text (safe_get w (widget_position tk which))"
    if "dict_key t = Inr tk" "ENCODER_READERS tk \<noteq> None" for tk
    using that rd by (auto simp: reader_is_norm)
  have nolist: "read_text_from_node g nid which = Inr JNull"
    if "dict_key t = Inr tk" "ENCODER_READERS tk \<noteq> None" "\<forall>xs. w \<noteq> JArr xs" for tk
    using rule [OF that(1,2)] that(3) by (cases w) (simp_all add: safe_get_def)
  have short: "read_text_from_node g nid which = Inr JNull"
    if "dict_key t = Inr tk" "ENCODER_READERS tk \<noteq> None" "w = JArr xs"
      "length xs \<le> widget_position tk which" for tk xs
    using rule [OF that(1,2)] that(3,4) by (simp add: safe_get_def)
  have at: "read_text_from_node g nid which = norm_text (xs ! widget_position tk which)"
    if "dict_key t = Inr tk" "ENCODER_READERS tk \<noteq> None" "w = JArr xs"
      "widget_position tk which < length xs" for tk xs
    using rule [OF that(1,2)] that(3,4) by (simp add: safe_get_def)
  have body: "py_get n ''type'' = Inr t \<and> py_get n ''widgets_values'' = Inr w
             \<and> (\<forall>e. dict_key t = Inl e \<longrightarrow> read_text_from_node g nid which = Inl TypeError)
             \<and> (\<forall>tk. dict_key t = Inr tk \<longrightarrow>
                  (ENCODER_READERS tk = None \<longrightarrow> read_text_from_node g nid which = Inr JNull)
                \<and> (ENCODER_READERS tk \<noteq> None \<longrightarrow>
                     ((\<forall>xs. w \<noteq> JArr xs) \<longrightarrow> read_text_from_node g nid which = Inr JNull)
                   \<and> (\<forall>xs. w = JArr xs \<and> length xs \<le> widget_position tk which \<longrightarrow>
                         read_text_from_node g nid which = Inr JNull)
                   \<and> (\<forall>xs. w = JArr xs \<and> widget_position tk which < length xs \<longrightarrow>
                         read_text_from_node g nid which = norm_text (xs ! widget_position tk which)
                       \<and> (text_or_falsy (xs ! widget_position tk which) \<longrightarrow>
                            (\<exists>r. read_text_from_node g nid which = Inr r))
                       \<and> (\<not> text_or_falsy (xs ! widget_position tk which) \<longrightarrow>
                            read_text_from_node g nid which = Inl AttributeError))))"
  proof (intro conjI allI impI)
    show "py_get n ''type'' = Inr t" by (rule t)
    show "py_get n ''widgets_values'' = Inr w" by (rule w)
  next
    fix e assume "dict_key t = Inl e"
    then show "read_text_from_node g nid which = Inl TypeError" by (rule unh)
  next
    fix tk assume "dict_key t = Inr tk" "ENCODER_READERS tk = None"
    then show "read_text_from_node g nid which = Inr JNull" by (rule nor)
  next
    fix tk assume "dict_key t = Inr tk" "ENCODER_READERS tk \<noteq> None" "\<forall>xs. w \<noteq> JArr xs"
    then show "read_text_from_node g nid which = Inr JNull" by (rule nolist)
  next
    fix tk xs
    assume "dict_key t = Inr tk" "ENCODER_READERS tk \<noteq> None"
      "w = JArr xs \<and> length xs \<le> widget_position tk which"
    then show "read_text_from_node g nid which = Inr JNull" using short by blast
  next
    fix tk xs
    assume "dict_key t = Inr tk" "ENCODER_READERS tk \<noteq> None"
      "w = JArr xs \<and> widget_position tk which < length xs"
    then show "read_text_from_node g nid which = norm_text (xs ! widget_position tk which)"
      using at by blast
  next
    fix tk xs
    assume "dict_key t = Inr tk" "ENCODER_READERS tk \<noteq> None"
      "w = JArr xs \<and> widget_position tk which < length xs"
      "text_or_falsy (xs ! widget_position tk which)"
    then show "\<exists>r. read_text_from_node g nid which = Inr r"
      using at [of tk xs] by (simp add: norm_text_Inr_iff)
  next
    fix tk xs
    assume "dict_key t = Inr tk" "ENCODER_READERS tk \<noteq> None"
      "w = JArr xs \<and> widget_position tk which < length xs"
      "\<not> text_or_falsy (xs ! widget_position tk which)"
    then show "read_text_from_node g nid which = Inl AttributeError"
      using at [of tk xs] by (simp add: norm_text_raises)
  qed
  show "\<exists>t w. py_get n ''type'' = Inr t \<and> py_get n ''widgets_values'' = Inr w
             \<and> (\<forall>e. dict_key t = Inl e \<longrightarrow> read_text_from_node g nid which = Inl TypeError)
             \<and> (\<forall>tk. dict_key t = Inr tk \<longrightarrow>
                  (ENCODER_READERS tk = None \<longrightarrow> read_text_from_node g nid which = Inr JNull)
                \<and> (ENCODER_READERS tk \<noteq> None \<longrightarrow>
                     ((\<forall>xs. w \<noteq> JArr xs) \<longrightarrow> read_text_from_node g nid which = Inr JNull)
                   \<and> (\<forall>xs. w = JArr xs \<and> length xs \<le> widget_position tk which \<longrightarrow>
                         read_text_from_node g nid which = Inr JNull)
                   \<and> (\<forall>xs. w = JArr xs \<and> widget_position tk which < length xs \<longrightarrow>
                         read_text_from_node g nid which = norm_text (xs ! widget_position tk which)
                       \<and> (text_or_falsy (xs ! widget_position tk which) \<longrightarrow>
                            (\<exists>r. read_text_from_node g nid which = Inr r))
                       \<and> (\<not> text_or_falsy (xs ! widget_position tk which) \<longrightarrow>
                            read_text_from_node g nid which = Inl AttributeError))))"
    by (rule exI, rule exI, rule body)
qed

theorem read_text_absent_cases_witness:
  "\<exists>g. UIGraph_init doc_two_samplers = Inr g
     \<and> read_text_from_node g (JInt 3) (JStr ''positive'') = Inr (JStr ''good'')
     \<and> read_text_from_node g (JInt 5) (JStr ''positive'') = Inr JNull
     \<and> read_text_from_node g (JInt 99) (JStr ''positive'') = Inr JNull"
proof -
  obtain g where g: "UIGraph_init doc_two_samplers = Inr g"
    by (simp add: run doc_two_samplers_def)
  note main = read_text_absent_cases [OF g, of "JStr ''positive''"]
  note missing = main [THEN conjunct2, THEN conjunct2, THEN conjunct1, rule_format]
  note stored = main [THEN conjunct2, THEN conjunct2, THEN conjunct2, rule_format]
  let ?n3 = "JObj [(''id'', JInt 3), (''type'', JStr ''CLIPTextEncode''),
    (''widgets_values'', JArr [JStr ''good''])]"
  let ?n5 = "JObj [(''id'', JInt 5), (''type'', JStr ''SaveImage'')]"
  have n3: "map_of (nodes g) (KNum 3) = Some ?n3" and n5: "map_of (nodes g) (KNum 5) = Some ?n5"
    and n99: "map_of (nodes g) (KNum 99) = None"
    using g by (auto simp: run doc_two_samplers_def)
  have h3: "JInt 3 \<noteq> JNull \<and> dict_key (JInt 3) = Inr (KNum 3) \<and> map_of (nodes g) (KNum 3) = Some ?n3"
    using n3 by simp
  have a: "read_text_from_node g (JInt 3) (JStr ''positive'') = Inr (JStr ''good'')"
    using stored [OF h3]
    by (simp add: py_get_def ENCODER_READERS_def widget_position_def norm_text_def py_or_def
        strip_def is_space_def)
  have h5: "JInt 5 \<noteq> JNull \<and> dict_key (JInt 5) = Inr (KNum 5) \<and> map_of (nodes g) (KNum 5) = Some ?n5"
    using n5 by simp
  have b: "read_text_from_node g (JInt 5) (JStr ''positive'') = Inr JNull"
    using stored [OF h5] by (simp add: py_get_def ENCODER_READERS_def)
  have "dict_key (JInt 99) = Inr (KNum 99) \<and> map_of (nodes g) (KNum 99) = None"
    using n99 by simp
  from missing [OF this] have c: "read_text_from_node g (JInt 99) (JStr ''positive'') = Inr JNull" .
  from g a b c show ?thesis by blast
qed

text \<open>
  The claim as stated fails on \<open>doc_number_widget\<close>: the node is in the store, its type has
  an extraction rule, its widget list has a value at position 0, and the reader raises.
\<close>

theorem number_widget_raises:
  "\<exists>g. UIGraph_init doc_number_widget = Inr g
     \<and> read_text_from_node g (JInt 1) (JStr ''positive'') = Inl AttributeError"
  by (simp add: run doc_number_widget_def)

section \<open>A sampler with one input wired\<close>

lemma input_scan_member:
  "map_err (\<lambda>i. py_get i ''name'') ins = Inr names \<Longrightarrow> JStr nm \<in> set names \<Longrightarrow>
     \<exists>j. input_scan ins nm k = Inr (JInt j)"
proof (induction ins arbitrary: names k)
  case Nil
  then show ?case by simp
next
  case (Cons inp ins)
  from Cons.prems(1) obtain v vs where v: "py_get inp ''name'' = Inr v"
    and vs: "map_err (\<lambda>i. py_get i ''name'') ins = Inr vs" and names: "names = v # vs"
    by (auto simp: bnd_eq_Inr)
  show ?case
  proof (cases "v = JStr nm")
    case True
    with v show ?thesis by simp
  next
    case False
    with Cons.prems(2) names have "JStr nm \<in> set vs" by auto
    from Cons.IH [OF vs this, of "Suc k"] v False show ?thesis by simp
  qed
qed

lemma input_index_member:
  assumes "input_names s = Inr names" and "JStr nm \<in> set names"
  shows "\<exists>j. input_index s nm = Inr (JInt j)"
proof -
  from assms(1) obtain i ins where i: "py_get s ''inputs'' = Inr i"
    and ins: "py_iter (py_or i (JArr [])) = Inr ins"
    and m: "map_err (\<lambda>i. py_get i ''name'') ins = Inr names"
    by (auto simp: input_names_def bnd_eq_Inr)
  from input_scan_member [OF m assms(2), of 0] i ins show ?thesis
    by (simp add: input_index_def)
qed

lemma upstream_of_index:
  assumes "input_index s nm = Inr (JInt j)" and "upstream g s nm = Inr e"
  obtains i where "getitem_str s ''id'' = Inr i" "src_for g i (JInt j) = Inr e"
    "src_of_input g s (JInt j) = Inr e"
  using assms by (auto simp: upstream_def src_of_input_def bnd_eq_Inr)

lemma filter_err_member:
  "filter_err p xs = Inr ys \<Longrightarrow> x \<in> set xs \<Longrightarrow> p x = Inr True \<Longrightarrow> x \<in> set ys"
  by (drule filter_err_Inr) simp

text \<open>
  C5, as amended. A node of an allow-listed pos/neg sampler type that declares both
  inputs, whose \<^verbatim>\<open>negative\<close> input is wired to a node \<open>e\<close> and whose \<^verbatim>\<open>positive\<close> input has no
  link, qualifies as a candidate of the direct mode. When it is the sampler that the mode
  selects and the reader finds a non-absent text at \<open>e\<close>, the result of the pipeline is
  that text as negative and absent as positive.
\<close>

theorem negative_only_sampler:
  assumes "editor_shape workflow" and "UIGraph_init workflow = Inr g"
    and "s \<in> snd ` set (nodes g)"
    and "py_get s ''type'' = Inr t" and "t \<in> set (map JStr KNOWN_POSNEG_SAMPLERS)"
    and "input_names s = Inr names"
    and "JStr ''positive'' \<in> set names" and "JStr ''negative'' \<in> set names"
    and "upstream g s ''positive'' = Inr JNull"
    and "upstream g s ''negative'' = Inr e" and "e \<noteq> JNull"
  shows "posneg_candidate g s = Inr True
    \<and> (\<forall>cs. filter_err (posneg_candidate g) (map snd (nodes g)) = Inr cs \<longrightarrow> s \<in> set cs)
    \<and> (\<forall>tx. sampler_with_posneg g = Inr s
          \<and> read_text_from_node g e (JStr ''negative'') = Inr tx \<and> tx \<noteq> JNull \<longrightarrow>
            extract_prompts workflow = Inr (JNull, tx))"
proof -
  from input_index_member [OF assms(6,7)] obtain pj
    where pj: "input_index s ''positive'' = Inr (JInt pj)" ..
  from input_index_member [OF assms(6,8)] obtain nj
    where nj: "input_index s ''negative'' = Inr (JInt nj)" ..
  from upstream_of_index [OF pj assms(9)] obtain i where i: "getitem_str s ''id'' = Inr i"
    and ps: "src_for g i (JInt pj) = Inr JNull" "src_of_input g s (JInt pj) = Inr JNull"
    by blast
  from upstream_of_index [OF nj assms(10)] i
  have ns: "src_for g i (JInt nj) = Inr e" "src_of_input g s (JInt nj) = Inr e"
    by auto
  have cand: "posneg_candidate g s = Inr True"
    using assms(4,5,6,7,8,11) pj nj i ps(1) ns(1) by (simp add: posneg_candidate_def)
  have mem: "s \<in> set cs" if "filter_err (posneg_candidate g) (map snd (nodes g)) = Inr cs" for cs
  proof -
    from assms(3) have "s \<in> set (map snd (nodes g))" by simp
    then show ?thesis by (rule filter_err_member [OF that _ cand])
  qed
  have res: "extract_prompts workflow = Inr (JNull, tx)"
    if sel: "sampler_with_posneg g = Inr s"
      and rd: "read_text_from_node g e (JStr ''negative'') = Inr tx" "tx \<noteq> JNull" for tx
  proof -
    from i have tr: "truthy s" by (cases s) (auto split: option.splits)
    have rp: "read_text_from_node g JNull (JStr ''positive'') = Inr JNull"
      by (simp add: read_text_from_node_def)
    have st: "posneg_stage g = Inr (Some (JNull, tx))"
      using sel tr i pj nj ps(2) ns(2) rp rd(1) by (simp add: posneg_stage_def)
    from rd have "truthy tx" by (simp add: read_text_truthy)
    with st assms(2) have "ui_path workflow = Inr (JNull, tx)"
      by (simp add: ui_path_def)
    with assms(1) show ?thesis by (simp add: extract_prompts_editor)
  qed
  from cand mem res show ?thesis by (intro conjI allI impI) (simp_all (no_asm_simp))
qed

theorem negative_only_sampler_witness:
  "\<exists>g s. UIGraph_init doc_negative_only = Inr g
     \<and> getitem_str s ''id'' = Inr (JInt 1)
     \<and> upstream g s ''positive'' = Inr JNull
     \<and> upstream g s ''negative'' = Inr (JInt 2)
     \<and> posneg_candidate g s = Inr True
     \<and> sampler_with_posneg g = Inr s
     \<and> extract_prompts doc_negative_only = Inr (JNull, JStr ''ugly'')"
proof -
  obtain g where g: "UIGraph_init doc_negative_only = Inr g"
    by (simp add: run doc_negative_only_def)
  define s where "s = JObj [(''id'', JInt 1), (''type'', JStr ''KSampler''),
    (''inputs'', JArr [JObj [(''name'', JStr ''positive'')], JObj [(''name'', JStr ''negative'')]])]"
  have sh: "editor_shape doc_negative_only"
    by (simp add: editor_shape_def doc_negative_only_def)
  have mem: "s \<in> snd ` set (nodes g)"
    using g by (auto simp: run doc_negative_only_def s_def)
  have ty: "py_get s ''type'' = Inr (JStr ''KSampler'')"
    and al: "JStr ''KSampler'' \<in> set (map JStr KNOWN_POSNEG_SAMPLERS)"
    and nm: "input_names s = Inr [JStr ''positive'', JStr ''negative'']"
    and i: "getitem_str s ''id'' = Inr (JInt 1)"
    by (simp_all add: run s_def)
  have up: "upstream g s ''positive'' = Inr JNull" and un: "upstream g s ''negative'' = Inr (JInt 2)"
    using g by (auto simp: run upstream_def doc_negative_only_def s_def)
  have sel: "sampler_with_posneg g = Inr s"
    using g by (auto simp: run doc_negative_only_def s_def)
  have rd: "read_text_from_node g (JInt 2) (JStr ''negative'') = Inr (JStr ''ugly'')"
    using g by (auto simp: run doc_negative_only_def)
  note main = negative_only_sampler [OF sh g mem ty al nm _ _ up un]
  have cand: "posneg_candidate g s = Inr True"
    using main by simp
  have res: "extract_prompts doc_negative_only = Inr (JNull, JStr ''ugly'')"
    using main sel rd by simp
  from g i up un cand sel res show ?thesis by blast
qed

text \<open>
  The claim as stated fails on \<open>doc_partial_second\<close>: node 2 is such a sampler and
  qualifies, the encoder wired to its negative input reads \<open>ugly\<close>, and the pipeline
  returns the two texts of node 1, the first candidate, with positive populated.
\<close>

theorem other_sampler_is_selected:
  "\<exists>g. UIGraph_init doc_partial_second = Inr g
     \<and> posneg_candidate g (nodes_get g (KNum 2)) = Inr True
     \<and> py_get (nodes_get g (KNum 2)) ''type'' = Inr (JStr ''KSampler'')
     \<and> upstream g (nodes_get g (KNum 2)) ''positive'' = Inr JNull
     \<and> upstream g (nodes_get g (KNum 2)) ''negative'' = Inr (JInt 5)
     \<and> read_text_from_node g (JInt 5) (JStr ''negative'') = Inr (JStr ''ugly'')
     \<and> extract_prompts doc_partial_second = Inr (JStr ''good'', JStr ''bad'')"
  by (simp add: run upstream_def doc_partial_second_def)

section \<open>An aggregated-embedding sampler behind a bridge\<close>

lemma upstream_Inr:
  assumes "upstream g node name = Inr src"
  obtains idx where "input_index node name = Inr idx" "src_of_input g node idx = Inr src"
  using assms by (auto simp: upstream_def bnd_eq_Inr)

lemma src_of_input_truthy:
  assumes "src_of_input g node idx = Inr src" and "truthy src"
  obtains i where "getitem_str node ''id'' = Inr i" "truthy node"
proof -
  from assms have "idx \<noteq> JNull" by (auto simp: src_of_input_def)
  with assms(1) obtain i where i: "getitem_str node ''id'' = Inr i"
    by (auto simp: src_of_input_def bnd_eq_Inr)
  then have "truthy node" by (cases node) (auto split: option.splits)
  with i show ?thesis by (rule that)
qed

lemma bridge_has_no_text:
  assumes "UIGraph_init workflow = Inr g" and "x \<noteq> JNull" and "dict_key x = Inr xk"
    and "map_of (nodes g) xk = Some n"
    and "py_get n ''type'' = Inr (JStr ''WanVideoTextEmbedBridge'')"
  shows "read_text_from_node g x which = Inr JNull"
proof -
  from read_text_stored [OF assms(1-4), of which] obtain t w where
    "py_get n ''type'' = Inr t"
    "read_text_from_node g x which =
       bnd (dict_key t) (\<lambda>tk. case ENCODER_READERS tk of
          Some reader \<Rightarrow> reader n w which | None \<Rightarrow> Inr JNull)"
    by blast
  with assms(5) show ?thesis by (simp add: ENCODER_READERS_def)
qed

text \<open>
  C8, as amended. When the aggregated-embedding sampler that the resolver selects has its
  \<^verbatim>\<open>text_embeds\<close> input wired to a bridge node, strategy (b) follows the bridge's inputs
  named \<^verbatim>\<open>positive\<close> and \<^verbatim>\<open>negative\<close> one step further up and reads the text of each source
  with the matching hint: these two texts are what the strategy yields. A node of the
  bridge type has no text of its own for the reader, so neither the bridge nor a second
  bridge above it contributes any. When strategy (a) has nothing to return and one of the
  two texts is not absent, the pair is the result of the pipeline.
\<close>

theorem bridge_is_followed_one_level:
  assumes "editor_shape workflow" and "UIGraph_init workflow = Inr g"
    and "sampler_with_text_embeds g = Inr s"
    and "upstream g s ''text_embeds'' = Inr b_id" and "truthy b_id"
    and "dict_key b_id = Inr bk" and "map_of (nodes g) bk = Some b"
    and "py_get b ''type'' = Inr (JStr ''WanVideoTextEmbedBridge'')"
    and "upstream g b ''positive'' = Inr p_src" and "upstream g b ''negative'' = Inr n_src"
    and "read_text_from_node g p_src (JStr ''positive'') = Inr pos"
    and "read_text_from_node g n_src (JStr ''negative'') = Inr neg"
  shows "embeds_stage g = Inr (Bridge pos neg)
    \<and> (\<forall>x xk n. x \<noteq> JNull \<and> dict_key x = Inr xk \<and> map_of (nodes g) xk = Some n
          \<and> py_get n ''type'' = Inr (JStr ''WanVideoTextEmbedBridge'') \<longrightarrow>
            read_text_from_node g x which = Inr JNull)
    \<and> (posneg_yields_nothing g \<and> (pos \<noteq> JNull \<or> neg \<noteq> JNull) \<longrightarrow>
          extract_prompts workflow = Inr (pos, neg))"
proof -
  from assms(4) obtain ei where ei: "input_index s ''text_embeds'' = Inr ei"
    and es: "src_of_input g s ei = Inr b_id"
    by (rule upstream_Inr)
  from es assms(5) obtain i where i: "getitem_str s ''id'' = Inr i" and ts: "truthy s"
    by (rule src_of_input_truthy)
  from assms(9) obtain pi where pi: "input_index b ''positive'' = Inr pi"
    and ps: "src_of_input g b pi = Inr p_src"
    by (rule upstream_Inr)
  from assms(10) obtain ni where ni: "input_index b ''negative'' = Inr ni"
    and ns: "src_of_input g b ni = Inr n_src"
    by (rule upstream_Inr)
  have stage: "embeds_stage g = Inr (Bridge pos neg)"
    using assms(3,5,6,7,8,11,12) ts i ei es pi ps ni ns
    by (simp add: embeds_stage_def)
  have own: "read_text_from_node g x which = Inr JNull"
    if "x \<noteq> JNull" "dict_key x = Inr xk" "map_of (nodes g) xk = Some n"
      "py_get n ''type'' = Inr (JStr ''WanVideoTextEmbedBridge'')" for x xk n
    using assms(2) that by (rule bridge_has_no_text)
  have res: "extract_prompts workflow = Inr (pos, neg)"
    if "posneg_yields_nothing g" "pos \<noteq> JNull \<or> neg \<noteq> JNull"
  proof -
    from embeds_stage_truthy [OF stage] that(2) have "truthy pos \<or> truthy neg" by simp
    with stage have "embeds_then_wte g = Inr (pos, neg)"
      by (auto simp: embeds_then_wte_def)
    with ui_path_after_posneg [OF assms(2) that(1)] assms(1) show ?thesis
      by (simp add: extract_prompts_editor)
  qed
  show ?thesis
  proof (intro conjI allI impI)
    show "embeds_stage g = Inr (Bridge pos neg)" by (rule stage)
  next
    fix x xk n
    assume "x \<noteq> JNull \<and> dict_key x = Inr xk \<and> map_of (nodes g) xk = Some n
          \<and> py_get n ''type'' = Inr (JStr ''WanVideoTextEmbedBridge'')"
    then show "read_text_from_node g x which = Inr JNull" using own by simp
  next
    assume "posneg_yields_nothing g \<and> (pos \<noteq> JNull \<or> neg \<noteq> JNull)"
    then show "extract_prompts workflow = Inr (pos, neg)" using res by simp
  qed
qed

theorem bridge_is_followed_one_level_witness:
  "\<exists>g. UIGraph_init doc_bridge = Inr g
     \<and> embeds_stage g = Inr (Bridge (JStr ''up-pos'') (JStr ''up-neg''))
     \<and> read_text_from_node g (JInt 2) (JStr ''positive'') = Inr JNull
     \<and> extract_prompts doc_bridge = Inr (JStr ''up-pos'', JStr ''up-neg'')"
proof -
  obtain g where g: "UIGraph_init doc_bridge = Inr g"
    by (simp add: run doc_bridge_def)
  define s where "s = JObj [(''id'', JInt 1), (''type'', JStr ''WanVideoSampler''),
    (''inputs'', JArr [JObj [(''name'', JStr ''text_embeds'')]])]"
  define b where "b = JObj [(''id'', JInt 2), (''type'', JStr ''WanVideoTextEmbedBridge''),
    (''inputs'', JArr [JObj [(''name'', JStr ''positive'')], JObj [(''name'', JStr ''negative'')]])]"
  have sh: "editor_shape doc_bridge" by (simp add: editor_shape_def doc_bridge_def)
  have sel: "sampler_with_text_embeds g = Inr s"
    using g by (auto simp: run doc_bridge_def s_def)
  have us: "upstream g s ''text_embeds'' = Inr (JInt 2)"
    using g by (auto simp: run upstream_def doc_bridge_def s_def)
  have tb: "truthy (JInt 2)" and kb: "dict_key (JInt 2) = Inr (KNum 2)" by simp_all
  have nb: "map_of (nodes g) (KNum 2) = Some b"
    using g by (auto simp: run doc_bridge_def b_def)
  have ty: "py_get b ''type'' = Inr (JStr ''WanVideoTextEmbedBridge'')"
    by (simp add: py_get_def b_def)
  have up: "upstream g b ''positive'' = Inr (JInt 3)" and un: "upstream g b ''negative'' = Inr (JInt 4)"
    using g by (auto simp: run upstream_def doc_bridge_def b_def)
  have rp: "read_text_from_node g (JInt 3) (JStr ''positive'') = Inr (JStr ''up-pos'')"
    and rn: "read_text_from_node g (JInt 4) (JStr ''negative'') = Inr (JStr ''up-neg'')"
    using g by (auto simp: run doc_bridge_def)
  have yn: "posneg_yields_nothing g"
    using g by (auto simp: run posneg_yields_nothing_def doc_bridge_def)
  note main = bridge_is_followed_one_level [OF sh g sel us tb kb nb ty up un rp rn,
      of "JStr ''positive''"]
  have a: "embeds_stage g = Inr (Bridge (JStr ''up-pos'') (JStr ''up-neg''))"
    using main by simp
  have "JInt 2 \<noteq> JNull \<and> dict_key (JInt 2) = Inr (KNum 2) \<and> map_of (nodes g) (KNum 2) = Some b
      \<and> py_get b ''type'' = Inr (JStr ''WanVideoTextEmbedBridge'')"
    using nb ty by simp
  with main [THEN conjunct2, THEN conjunct1, rule_format, of "JInt 2" "KNum 2" b]
  have c: "read_text_from_node g (JInt 2) (JStr ''positive'') = Inr JNull" by simp
  have d: "extract_prompts doc_bridge = Inr (JStr ''up-pos'', JStr ''up-neg'')"
    using main yn by simp
  from g a c d show ?thesis by blast
qed

text \<open>
  The claim as stated fails on \<open>doc_bridge_and_sampler\<close>: the aggregated-embedding
  sampler is wired to the bridge and strategy (b) would yield the two upstream texts, but
  strategy (a) comes first and the pipeline returns the texts of the pos/neg sampler.
\<close>

theorem direct_sampler_preempts_bridge:
  "\<exists>g. UIGraph_init doc_bridge_and_sampler = Inr g
     \<and> py_get (nodes_get g (KNum 1)) ''type'' = Inr (JStr ''WanVideoSampler'')
     \<and> upstream g (nodes_get g (KNum 1)) ''text_embeds'' = Inr (JInt 2)
     \<and> py_get (nodes_get g (KNum 2)) ''type'' = Inr (JStr ''WanVideoTextEmbedBridge'')
     \<and> embeds_stage g = Inr (Bridge (JStr ''up-pos'') (JStr ''up-neg''))
     \<and> extract_prompts doc_bridge_and_sampler = Inr (JStr ''other-pos'', JStr ''other-neg'')"
  by (simp add: run upstream_def doc_bridge_and_sampler_def)

end
